theory Spec2Isabelle
  imports Complex_Main "HOL-Library.AList" "HOL-Library.Multiset"
begin

section \<open>Values, errors and the interpreter's hash\<close>

text \<open>
  The importer works on deserialised JSON: Python values. A dict is an association list
  in its iteration order (keys distinct in a well-formed dict), looked up with
  \<open>map_of\<close> and written with \<open>AList.update\<close>, which overwrites in place or appends,
  as assignment to a Python dict does.
\<close>

datatype pyval =
    PyNone
  | PyBool bool
  | PyInt int
  | PyFloat real
  | PyStr string
  | PyList "pyval list"
  | PyTuple "pyval list"
  | PyDict "(string \<times> pyval) list"

datatype py_error =
    TypeError
  | KeyError
  | IndexError
  | AttributeError
  | Exception string

text \<open>
  \<open>hash\<close> is a built-in of the interpreter, not code of the importer. What the
  interpreter fixes is modelled: integers hash to themselves reduced modulo
  \<open>2^61 - 1\<close> with the sign kept and \<open>-1\<close> replaced by \<open>-2\<close>, booleans hash as
  \<open>1\<close> and \<open>0\<close>, a tuple's hash is computed from the hashes of its elements in
  order, a frozenset's from the hashes of its elements in no order, and lists and dicts
  are unhashable (TypeError). What varies between interpreter runs or builds (the keyed
  string hash, the float hash, the hash of None, the two combining functions) is a
  parameter.
\<close>

record hasher =
  hash_str :: "string \<Rightarrow> int"
  hash_float :: "real \<Rightarrow> int"
  hash_none :: int
  hash_tuple :: "int list \<Rightarrow> int"
  hash_frozenset :: "int multiset \<Rightarrow> int"

definition PyHASH_MODULUS :: int where
  "PyHASH_MODULUS = 2 ^ 61 - 1"

definition long_hash :: "int \<Rightarrow> int" where
  "long_hash n =
     (let h = sgn n * (\<bar>n\<bar> mod PyHASH_MODULUS) in if h = - 1 then - 2 else h)"

fun sequence_err :: "(py_error + 'a) list \<Rightarrow> py_error + 'a list" where
  "sequence_err [] = Inr []"
| "sequence_err (Inl e # rs) = Inl e"
| "sequence_err (Inr x # rs) =
     (case sequence_err rs of Inl e \<Rightarrow> Inl e | Inr xs \<Rightarrow> Inr (x # xs))"

fun py_hash :: "hasher \<Rightarrow> pyval \<Rightarrow> py_error + int" where
  "py_hash H PyNone = Inr (hash_none H)"
| "py_hash H (PyBool b) = Inr (if b then 1 else 0)"
| "py_hash H (PyInt n) = Inr (long_hash n)"
| "py_hash H (PyFloat x) = Inr (hash_float H x)"
| "py_hash H (PyStr s) = Inr (hash_str H s)"
| "py_hash H (PyList vs) = Inl TypeError"
| "py_hash H (PyTuple vs) =
     (case sequence_err (map (py_hash H) vs) of
        Inl e \<Rightarrow> Inl e
      | Inr hs \<Rightarrow> Inr (hash_tuple H hs))"
| "py_hash H (PyDict kvs) = Inl TypeError"

text \<open>\<open>str\<close> of an integer: its decimal digits, with a minus sign when negative.\<close>

definition digit_char :: "nat \<Rightarrow> char" where
  "digit_char d = char_of (48 + d)"

fun str_nat :: "nat \<Rightarrow> string" where
  "str_nat n = (if n < 10 then [digit_char n] else str_nat (n div 10) @ [digit_char (n mod 10)])"

declare str_nat.simps [simp del]

definition str_int :: "int \<Rightarrow> string" where
  "str_int i = (if i < 0 then CHR ''-'' # str_nat (nat (- i)) else str_nat (nat i))"

section \<open>The key table D3D\<close>

text \<open>
  The importer reads every material and mesh key from the constant table \<open>D3D\<close> of
  \<open>data3d_utils\<close>. The table is a parameter of the model: a record of the constants the
  importer uses. \<open>d3d_keys\<close> is one instance, for evaluating the model on concrete
  scenes.
\<close>

record d3d =
  col_diff :: string
  col_spec :: string
  coef_spec :: string
  coef_emit :: string
  opacity :: string
  uv_scale :: string
  map_diff :: string
  map_spec :: string
  map_norm :: string
  map_alpha :: string
  map_light :: string
  map_suffix_source :: string
  map_suffix_preview :: string
  cast_shadows :: string
  receive_shadows :: string
  add_lightmap :: string
  use_in_calc :: string
  hide_after_calc :: string
  m_material :: string
  mat_default :: string

definition d3d_keys :: d3d where
  "d3d_keys = \<lparr>
     col_diff = ''colorDiffuse'', col_spec = ''colorSpecular'',
     coef_spec = ''specularCoef'', coef_emit = ''lightEmissionCoef'',
     opacity = ''opacity'', uv_scale = ''size'',
     map_diff = ''mapDiffuse'', map_spec = ''mapSpecular'', map_norm = ''mapNormal'',
     map_alpha = ''mapAlpha'', map_light = ''mapLight'',
     map_suffix_source = ''Source'', map_suffix_preview = ''Preview'',
     cast_shadows = ''castRealTimeShadows'', receive_shadows = ''receiveRealTimeShadows'',
     add_lightmap = ''addLightmap'', use_in_calc = ''useInBaking'',
     hide_after_calc = ''hideAfterBaking'',
     m_material = ''material'', mat_default = ''al_default'' \<rparr>"

section \<open>Material hashing: \<open>get_al_material_hash\<close>\<close>

type_synonym al_material = "(string \<times> pyval) list"

definition compare_keys :: "d3d \<Rightarrow> bool \<Rightarrow> string list" where
  "compare_keys D import_metadata =
     [col_diff D, col_spec D, coef_spec D, coef_emit D, opacity D, uv_scale D,
      map_diff D, map_diff D @ map_suffix_source D, map_diff D @ map_suffix_preview D,
      map_spec D, map_spec D @ map_suffix_source D, map_spec D @ map_suffix_preview D,
      map_norm D, map_norm D @ map_suffix_source D, map_norm D @ map_suffix_preview D,
      map_alpha D, map_alpha D @ map_suffix_source D, map_alpha D @ map_suffix_preview D,
      map_light D, map_light D @ map_suffix_source D, map_light D @ map_suffix_preview D,
      cast_shadows D, receive_shadows D]
     @ (if import_metadata then [add_lightmap D, use_in_calc D, hide_after_calc D] else [])"

text \<open>\<open>tuple(value) if isinstance(value, list) else value\<close>\<close>

fun as_tuple :: "pyval \<Rightarrow> pyval" where
  "as_tuple (PyList vs) = PyTuple vs"
| "as_tuple v = v"

text \<open>The loop \<open>for key in compare_keys\<close> that fills \<open>hash_nodes\<close>.\<close>

fun collect_hash_nodes :: "string list \<Rightarrow> al_material \<Rightarrow> al_material \<Rightarrow> al_material" where
  "collect_hash_nodes [] al_material hash_nodes = hash_nodes"
| "collect_hash_nodes (key # keys) al_material hash_nodes =
     collect_hash_nodes keys al_material
       (case map_of al_material key of
          Some val \<Rightarrow> AList.update key (as_tuple val) hash_nodes
        | None \<Rightarrow> hash_nodes)"

text \<open>
  \<open>hash(frozenset(hash_nodes.items()))\<close>: every item is the tuple \<open>(key, value)\<close>; the
  frozenset hashes each item when it is built.
\<close>

definition hash_items :: "hasher \<Rightarrow> al_material \<Rightarrow> py_error + int" where
  "hash_items H hash_nodes =
     (case sequence_err (map (\<lambda>(key, val). py_hash H (PyTuple [PyStr key, val])) hash_nodes) of
        Inl e \<Rightarrow> Inl e
      | Inr hs \<Rightarrow> Inr (hash_frozenset H (mset hs)))"

definition get_al_material_hash ::
    "hasher \<Rightarrow> d3d \<Rightarrow> bool \<Rightarrow> al_material \<Rightarrow> py_error + (int \<times> al_material)" where
  "get_al_material_hash H D import_metadata al_material =
     (let hash_nodes = collect_hash_nodes (compare_keys D import_metadata) al_material []
      in case hash_items H hash_nodes of
           Inl e \<Rightarrow> Inl e
         | Inr al_mat_hash \<Rightarrow> Inr (al_mat_hash, hash_nodes))"

section \<open>Decoded scene records\<close>

text \<open>
  A mesh is the dict the decoder hands over; its geometry keys are fields. \<open>verts_uvs\<close>
  and \<open>verts_uvs2\<close> are \<open>[]\<close> when the key is absent (the code reads them so). A face
  is the 4-tuple of index lists (positions, normals, uvs, uvs2). \<open>material\<close> is
  \<open>al_mesh[D3D.m_material]\<close>: \<open>None\<close> when the mesh has no such key, \<open>Some []\<close> when the
  key is there and empty.
\<close>

type_synonym vec = "real list"
type_synonym matrix = "real list list"
type_synonym face = "nat list \<times> nat list \<times> nat list \<times> nat list"

record al_mesh =
  m_name :: string
  verts_loc :: "vec list"
  verts_nor :: "vec list"
  verts_uvs :: "vec list"
  verts_uvs2 :: "vec list"
  faces :: "face list"
  material :: "string option"

text \<open>
  Modelled from the spec: the class \<open>Data3dObject\<close> of \<open>data3d_utils\<close> is not in the
  sources. Its fields are the attributes the importer reads and writes (the spec's
  SceneNode). \<open>parent\<close> is a reference to another node of the decoded list, held as that
  node's index; \<open>bl_object\<close> and \<open>bl_emission_object\<close> are references to host objects,
  \<open>None\<close> until \<open>set_bl_object\<close> and \<open>set_bl_emission_object\<close> store one.
\<close>

record data3d_object =
  node_id :: string
  meshes :: "al_mesh list"
  materials :: "(string \<times> al_material) list"
  mat_hash_map :: "(string \<times> string) list"
  parent :: "nat option"
  children :: "nat list"
  position :: vec
  rotation :: vec
  bl_object :: "nat option"
  bl_emission_object :: "nat option"

section \<open>Material deduplication: \<open>import_data3d_materials\<close>\<close>

text \<open>
  The inner loop \<open>for key in al_raw_materials\<close>: \<open>material_hash_map\<close> and
  \<open>al_hashed_materials\<close> are the two dicts it writes. A hash already in the table keeps
  its entry.
\<close>

fun hash_raw_materials ::
    "hasher \<Rightarrow> d3d \<Rightarrow> bool \<Rightarrow> (string \<times> al_material) list \<Rightarrow>
     (string \<times> string) list \<Rightarrow> (int \<times> al_material) list \<Rightarrow>
     py_error + ((string \<times> string) list \<times> (int \<times> al_material) list)" where
  "hash_raw_materials H D md [] material_hash_map al_hashed_materials =
     Inr (material_hash_map, al_hashed_materials)"
| "hash_raw_materials H D md ((key, raw) # rest) material_hash_map al_hashed_materials =
     (case get_al_material_hash H D md raw of
        Inl e \<Rightarrow> Inl e
      | Inr (al_mat_hash, al_mat) \<Rightarrow>
          hash_raw_materials H D md rest
            (AList.update key (str_int al_mat_hash) material_hash_map)
            (if map_of al_hashed_materials al_mat_hash = None
             then al_hashed_materials @ [(al_mat_hash, al_mat)]
             else al_hashed_materials))"

text \<open>The outer loop \<open>for data3d_object in data3d_objects\<close>.\<close>

fun hash_objects ::
    "hasher \<Rightarrow> d3d \<Rightarrow> bool \<Rightarrow> data3d_object list \<Rightarrow> (int \<times> al_material) list \<Rightarrow>
     py_error + (data3d_object list \<times> (int \<times> al_material) list)" where
  "hash_objects H D md [] al_hashed_materials = Inr ([], al_hashed_materials)"
| "hash_objects H D md (data3d_object # rest) al_hashed_materials =
     (case hash_raw_materials H D md (materials data3d_object) [] al_hashed_materials of
        Inl e \<Rightarrow> Inl e
      | Inr (material_hash_map, tbl) \<Rightarrow>
          (case hash_objects H D md rest tbl of
             Inl e \<Rightarrow> Inl e
           | Inr (rest', tbl') \<Rightarrow>
               Inr (data3d_object\<lparr>mat_hash_map := material_hash_map\<rparr> # rest', tbl')))"

section \<open>The host: Blender's data, as far as the importer touches it\<close>

text \<open>
  Host objects are referenced, aliased and mutated, so they live in a store: a material
  or an object is its index in \<open>D_materials\<close> or \<open>D_objects\<close>, and \<open>D.objects.new\<close>
  appends. An object of type EMPTY is one without mesh data. \<open>events\<close> records, in
  order, every assignment the importer makes to an object's \<open>parent\<close> and
  \<open>matrix_world\<close>. \<open>ob_applied\<close> lists the transforms that \<open>transform_apply\<close> has
  baked into the object's geometry. Shader wiring, image search and bmesh cleaning are
  the host's and are not tracked.
\<close>

record bl_mesh =
  me_name :: string
  me_vertices :: "vec list"
  me_loops_total :: nat
  me_loops_vertex_index :: "nat list"
  me_polygons_loop_start :: "nat list"
  me_polygons_loop_total :: "nat list"
  me_loops_normal :: "vec list"
  me_uv :: "vec list"
  me_uv2 :: "vec list"

datatype ob_type = MESH | EMPTY

record bl_object =
  ob_name :: string
  ob_data :: "bl_mesh option"
  ob_materials :: "nat list"
  ob_parent :: "nat option"
  ob_location :: vec
  ob_rotation_euler :: vec
  ob_matrix_world :: "matrix option"
  ob_select :: bool
  ob_linked :: bool
  ob_removed :: bool
  ob_shadow :: bool
  ob_camera :: bool
  ob_applied :: "(vec \<times> vec) list"

datatype event = SetParent nat "nat option" | SetMatrixWorld nat

record blender =
  D_materials :: "string list"
  D_objects :: "bl_object list"
  events :: "event list"

definition type_of_ob :: "bl_object \<Rightarrow> ob_type" where
  "type_of_ob ob = (case ob_data ob of None \<Rightarrow> EMPTY | Some me \<Rightarrow> MESH)"

definition upd_object :: "nat \<Rightarrow> (bl_object \<Rightarrow> bl_object) \<Rightarrow> blender \<Rightarrow> blender" where
  "upd_object i f B = B\<lparr>D_objects := (D_objects B)[i := f (D_objects B ! i)]\<rparr>"

definition objects_new :: "string \<Rightarrow> bl_mesh option \<Rightarrow> blender \<Rightarrow> nat \<times> blender" where
  "objects_new name me B =
     (length (D_objects B),
      B\<lparr>D_objects := D_objects B @
         [\<lparr>ob_name = name, ob_data = me, ob_materials = [], ob_parent = None,
           ob_location = [0, 0, 0], ob_rotation_euler = [0, 0, 0], ob_matrix_world = None,
           ob_select = False, ob_linked = False, ob_removed = False,
           ob_shadow = True, ob_camera = True, ob_applied = []\<rparr>]\<rparr>)"

definition materials_new :: "string \<Rightarrow> blender \<Rightarrow> nat \<times> blender" where
  "materials_new name B = (length (D_materials B), B\<lparr>D_materials := D_materials B @ [name]\<rparr>)"

fun index_of :: "'a \<Rightarrow> 'a list \<Rightarrow> nat" where
  "index_of x [] = 0"
| "index_of x (y # ys) = (if x = y then 0 else Suc (index_of x ys))"

definition scene_link :: "nat \<Rightarrow> blender \<Rightarrow> blender" where
  "scene_link ob B = upd_object ob (\<lambda>b. b\<lparr>ob_linked := True\<rparr>) B"

definition scene_unlink_remove :: "nat \<Rightarrow> blender \<Rightarrow> blender" where
  "scene_unlink_remove ob B = upd_object ob (\<lambda>b. b\<lparr>ob_linked := False, ob_removed := True\<rparr>) B"

text \<open>\<open>O.object.select_all(action='DESELECT')\<close>\<close>

definition deselect_all :: "blender \<Rightarrow> blender" where
  "deselect_all B = B\<lparr>D_objects := map (\<lambda>b. b\<lparr>ob_select := False\<rparr>) (D_objects B)\<rparr>"

text \<open>
  \<open>O.object.join()\<close>: the selected objects are merged into the active one, which takes
  their material slots; the others are gone.
\<close>

definition object_join :: "nat \<Rightarrow> blender \<Rightarrow> blender" where
  "object_join active B =
     (let obs = D_objects B;
          sel = filter (\<lambda>i. ob_select (obs ! i) \<and> \<not> ob_removed (obs ! i)) [0..<length obs];
          mats = remdups (concat (map (\<lambda>i. ob_materials (obs ! i)) (active # sel)))
      in B\<lparr>D_objects := map (\<lambda>i. if i = active then (obs ! i)\<lparr>ob_materials := mats\<rparr>
                                 else if i \<in> set sel
                                   then (obs ! i)\<lparr>ob_linked := False, ob_removed := True\<rparr>
                                 else obs ! i) [0..<length obs]\<rparr>)"

text \<open>
  \<open>O.object.transform_apply(location=apply_location, rotation=True, scale=True)\<close>: every
  selected object has its transform baked into its geometry and reset.
\<close>

definition transform_apply :: "bool \<Rightarrow> blender \<Rightarrow> blender" where
  "transform_apply apply_location B =
     B\<lparr>D_objects := map (\<lambda>b. if ob_select b \<and> \<not> ob_removed b
          then b\<lparr>ob_applied := ob_applied b @
                    [(if apply_location then ob_location b else [0, 0, 0], ob_rotation_euler b)],
                 ob_location := (if apply_location then [0, 0, 0] else ob_location b),
                 ob_rotation_euler := [0, 0, 0]\<rparr>
          else b) (D_objects B)\<rparr>"

text \<open>\<open>O.object.parent_clear(type='CLEAR_KEEP_TRANSFORM')\<close>, on the selected objects.\<close>

definition parent_clear :: "blender \<Rightarrow> blender" where
  "parent_clear B =
     B\<lparr>D_objects := map (\<lambda>b. if ob_select b \<and> \<not> ob_removed b then b\<lparr>ob_parent := None\<rparr> else b)
        (D_objects B)\<rparr>"

section \<open>The class \<open>Material\<close> and the end of \<open>import_data3d_materials\<close>\<close>

record Material =
  mat_al_material :: al_material
  mat_al_material_hash :: string
  mat_import_metadata :: bool
  mat_bl_material :: nat

text \<open>
  \<open>Material.__init__\<close>: a new host material named after the key. What
  \<open>create_blender_material\<close> and \<open>create_cycles_material\<close> then do with the reduced
  record is left out: they set colours, texture slots and shader nodes of the host's
  material, and they raise on values a material may hold without failing to hash (a
  string opacity in \<open>opacity < 1\<close>, a tuple in \<open>int(...)\<close> or \<open>float(...)\<close>, a missing
  node group of the host). So \<open>import_data3d_materials\<close> may return here where the
  source raises. The model's returning runs include the source's, with the same table and
  the same maps: what is proved of every returning run holds of the source's, and a run
  that fails here fails there.
\<close>

definition Material_init :: "string \<Rightarrow> al_material \<Rightarrow> bool \<Rightarrow> blender \<Rightarrow> Material \<times> blender" where
  "Material_init key al_mat import_metadata B =
     (let (bl, B') = materials_new key B
      in (\<lparr>mat_al_material = al_mat, mat_al_material_hash = key,
           mat_import_metadata = import_metadata, mat_bl_material = bl\<rparr>, B'))"

text \<open>\<open>Material.get_al_mat_node(self, key)\<close>; Python's \<open>None\<close> is \<open>PyNone\<close>.\<close>

definition get_al_mat_node :: "Material \<Rightarrow> string \<Rightarrow> pyval" where
  "get_al_mat_node self key =
     (case map_of (mat_al_material self) key of Some v \<Rightarrow> v | None \<Rightarrow> PyNone)"

definition get_al_mat_node_params :: "string list" where
  "get_al_mat_node_params = [''self'', ''key'']"

text \<open>
  A call of the method with keyword arguments: Python binds them to the parameters of
  the signature and raises TypeError for a keyword the signature does not have, before
  the body runs.
\<close>

definition call_get_al_mat_node :: "Material \<Rightarrow> string \<Rightarrow> string list \<Rightarrow> py_error + pyval" where
  "call_get_al_mat_node self key keywords =
     (if list_all (\<lambda>k. k \<in> set get_al_mat_node_params) keywords
      then Inr (get_al_mat_node self key)
      else Inl TypeError)"

text \<open>\<open>value > x\<close> for a float \<open>x\<close>: numbers and booleans compare, anything else raises.\<close>

fun py_gt_float :: "pyval \<Rightarrow> real \<Rightarrow> py_error + bool" where
  "py_gt_float (PyInt n) x = Inr (real_of_int n > x)"
| "py_gt_float (PyFloat y) x = Inr (y > x)"
| "py_gt_float (PyBool b) x = Inr ((if b then 1 else 0) > x)"
| "py_gt_float v x = Inl TypeError"

text \<open>The loop \<open>for key in al_hashed_materials\<close> that builds \<open>bl_materials\<close>.\<close>

fun create_materials ::
    "bool \<Rightarrow> (int \<times> al_material) list \<Rightarrow> (string \<times> Material) list \<Rightarrow> blender \<Rightarrow>
     (string \<times> Material) list \<times> blender" where
  "create_materials import_metadata [] bl_materials B = (bl_materials, B)"
| "create_materials import_metadata ((key, al_mat) # rest) bl_materials B =
     (let (mat, B') = Material_init (str_int key) al_mat import_metadata B
      in create_materials import_metadata rest (AList.update (str_int key) mat bl_materials) B')"

text \<open>
  \<open>material_utils.setup()\<close> only logs. The file path serves the host's image search
  alone and is left out.
\<close>

definition import_data3d_materials ::
    "hasher \<Rightarrow> d3d \<Rightarrow> data3d_object list \<Rightarrow> bool \<Rightarrow> blender \<Rightarrow>
     py_error + ((string \<times> Material) list \<times> data3d_object list \<times> blender)" where
  "import_data3d_materials H D data3d_objects import_metadata B =
     (case hash_objects H D import_metadata data3d_objects [] of
        Inl e \<Rightarrow> Inl e
      | Inr (objs', al_hashed_materials) \<Rightarrow>
          (let (bl_materials, B') = create_materials import_metadata al_hashed_materials [] B
           in Inr (bl_materials, objs', B')))"

section \<open>The mesh assembler: \<open>create_mesh\<close>\<close>

text \<open>The loop \<open>for f in faces\<close> that lays out the loops.\<close>

fun face_loops ::
    "face list \<Rightarrow> nat list \<Rightarrow> nat list \<Rightarrow> nat list \<Rightarrow> nat \<Rightarrow>
     nat list \<times> nat list \<times> nat list \<times> nat" where
  "face_loops [] loops_vert_idx faces_loop_start faces_loop_total l_idx =
     (loops_vert_idx, faces_loop_start, faces_loop_total, l_idx)"
| "face_loops (f # fs) loops_vert_idx faces_loop_start faces_loop_total l_idx =
     (let v_idx = fst f; nbr_vidx = 3
      in face_loops fs (loops_vert_idx @ v_idx) (faces_loop_start @ [l_idx])
           (faces_loop_total @ [nbr_vidx]) (l_idx + nbr_vidx))"

text \<open>
  \<open>for idx, loop_idx in zip(indices, blen_poly.loop_indices): loops[loop_idx] = src[idx]\<close>;
  an index out of range raises IndexError.
\<close>

fun set_loop_values :: "vec list \<Rightarrow> (nat \<times> nat) list \<Rightarrow> vec list \<Rightarrow> py_error + vec list" where
  "set_loop_values src [] loops = Inr loops"
| "set_loop_values src ((idx, loop_idx) # rest) loops =
     (if idx < length src \<and> loop_idx < length loops
      then set_loop_values src rest (loops[loop_idx := src ! idx])
      else Inl IndexError)"

text \<open>
  The loop over \<open>zip(faces, me.polygons)\<close> that writes normals and uvs per loop. The
  mesh is what the importer hands to the host; \<open>me.validate\<close>, \<open>me.update\<close> and the
  custom split normals are the host's.
\<close>

fun fill_loops ::
    "al_mesh \<Rightarrow> (face \<times> nat \<times> nat) list \<Rightarrow> vec list \<Rightarrow> vec list \<Rightarrow> vec list \<Rightarrow>
     py_error + (vec list \<times> vec list \<times> vec list)" where
  "fill_loops data [] nors uvs uvs2 = Inr (nors, uvs, uvs2)"
| "fill_loops data (((loc_idx, nor_idx, uvs_idx, uvs2_idx), loop_start, loop_total) # rest)
       nors uvs uvs2 =
     (let loop_indices = [loop_start ..< loop_start + loop_total]
      in case set_loop_values (verts_nor data) (zip nor_idx loop_indices) nors of
           Inl e \<Rightarrow> Inl e
         | Inr nors' \<Rightarrow>
             (case (if verts_uvs data \<noteq> []
                    then set_loop_values (verts_uvs data) (zip uvs_idx loop_indices) uvs
                    else Inr uvs) of
                Inl e \<Rightarrow> Inl e
              | Inr uvs' \<Rightarrow>
                  (case (if verts_uvs2 data \<noteq> []
                         then set_loop_values (verts_uvs2 data) (zip uvs2_idx loop_indices) uvs2
                         else Inr uvs2) of
                     Inl e \<Rightarrow> Inl e
                   | Inr uvs2' \<Rightarrow> fill_loops data rest nors' uvs' uvs2')))"

definition create_mesh :: "al_mesh \<Rightarrow> py_error + bl_mesh" where
  "create_mesh data =
     (let total_loops = length (faces data) * 3;
          (loops_vert_idx, faces_loop_start, faces_loop_total, l_idx) =
             face_loops (faces data) [] [] [] 0
      in case fill_loops data (zip (faces data) (zip faces_loop_start faces_loop_total))
                (replicate total_loops [0, 0, 0])
                (if verts_uvs data \<noteq> [] then replicate total_loops [0, 0] else [])
                (if verts_uvs2 data \<noteq> [] then replicate total_loops [0, 0] else []) of
           Inl e \<Rightarrow> Inl e
         | Inr (nors, uvs, uvs2) \<Rightarrow>
             Inr \<lparr>me_name = m_name data, me_vertices = verts_loc data,
                  me_loops_total = total_loops, me_loops_vertex_index = loops_vert_idx,
                  me_polygons_loop_start = faces_loop_start,
                  me_polygons_loop_total = faces_loop_total,
                  me_loops_normal = nors, me_uv = uvs, me_uv2 = uvs2\<rparr>)"

section \<open>The scene builder: \<open>import_scene\<close>\<close>

text \<open>
  An argument that is one object or a collection of objects
  (\<open>hasattr(objects, '__iter__')\<close>). A reference may be \<open>None\<close>; an attribute access on it
  raises AttributeError.
\<close>

datatype objects_arg = Single "nat option" | Collection "nat option list"

fun select_each :: "nat option list \<Rightarrow> blender \<Rightarrow> py_error + blender" where
  "select_each [] B = Inr B"
| "select_each (None # rest) B = Inl AttributeError"
| "select_each (Some ob # rest) B =
     select_each rest (upd_object ob (\<lambda>b. b\<lparr>ob_select := True\<rparr>) B)"

definition select :: "objects_arg \<Rightarrow> bool \<Rightarrow> blender \<Rightarrow> py_error + blender" where
  "select objects discard_selection B =
     (let grp = (case objects of Collection obs \<Rightarrow> obs | Single ob \<Rightarrow> [ob])
      in select_each grp (if discard_selection then deselect_all B else B))"

definition optimize_mesh :: "nat option \<Rightarrow> blender \<Rightarrow> py_error + blender" where
  "optimize_mesh obj B =
     (case obj of
        None \<Rightarrow> Inr B
      | Some ob \<Rightarrow>
          if type_of_ob (D_objects B ! ob) \<noteq> MESH then Inr B
          else select (Single obj) True B)"

definition join_objects :: "nat list \<Rightarrow> blender \<Rightarrow> py_error + (nat option \<times> blender)" where
  "join_objects grp B =
     (if length grp > 0
      then (case select (Collection (map Some grp)) True B of
              Inl e \<Rightarrow> Inl e
            | Inr B1 \<Rightarrow> (let joined = hd grp in Inr (Some joined, object_join joined B1)))
      else Inr (None, B))"

text \<open>
  The filter of \<open>normalise_objects\<close>, as written: \<open>obj is None and obj.type != 'MESH'\<close>.
  The right operand is evaluated only when the left one holds.
\<close>

definition normalise_cond :: "nat option \<Rightarrow> blender \<Rightarrow> py_error + bool" where
  "normalise_cond obj B =
     (if obj = None
      then (case obj of
              None \<Rightarrow> Inl AttributeError
            | Some ob \<Rightarrow> Inr (type_of_ob (D_objects B ! ob) \<noteq> MESH))
      else Inr False)"

fun normalise_group ::
    "nat option list \<Rightarrow> nat option list \<Rightarrow> blender \<Rightarrow> py_error + nat option list" where
  "normalise_group [] grp B = Inr grp"
| "normalise_group (obj # rest) grp B =
     (case normalise_cond obj B of
        Inl e \<Rightarrow> Inl e
      | Inr c \<Rightarrow> normalise_group rest (if c then grp @ [obj] else grp) B)"

definition normalise_objects :: "objects_arg \<Rightarrow> bool \<Rightarrow> blender \<Rightarrow> py_error + blender" where
  "normalise_objects objects apply_location B =
     (case (case objects of
              Collection obs \<Rightarrow> normalise_group obs [] B
            | Single ob \<Rightarrow> Inr [ob]) of
        Inl e \<Rightarrow> Inl e
      | Inr grp \<Rightarrow>
          (case select (Collection grp) True B of
             Inl e \<Rightarrow> Inl e
           | Inr B1 \<Rightarrow> Inr (transform_apply apply_location B1)))"

text \<open>The block under \<open>if import_materials:\<close> for one mesh; the result is \<open>is_emissive\<close>.\<close>

definition assign_material ::
    "d3d \<Rightarrow> (string \<times> Material) list \<Rightarrow> data3d_object \<Rightarrow> al_mesh \<Rightarrow> nat \<Rightarrow> blender \<Rightarrow>
     py_error + (bool \<times> blender)" where
  "assign_material D bl_materials data3d_object al_mesh ob B =
     (case material al_mesh of
        Some original_key \<Rightarrow>
          (if original_key \<noteq> [] then
             (let hashed_key =
                    (case map_of (mat_hash_map data3d_object) original_key of
                       Some h \<Rightarrow> h
                     | None \<Rightarrow> [])
              in if hashed_key \<noteq> [] \<and> map_of bl_materials hashed_key \<noteq> None then
                   (case map_of bl_materials hashed_key of
                      None \<Rightarrow> Inl KeyError
                    | Some mat \<Rightarrow>
                        (let B1 = upd_object ob
                                    (\<lambda>b. b\<lparr>ob_materials := ob_materials b @ [mat_bl_material mat]\<rparr>) B
                         in case call_get_al_mat_node mat (coef_emit D) [''fallback''] of
                              Inl e \<Rightarrow> Inl e
                            | Inr v \<Rightarrow>
                                (case py_gt_float v 0 of
                                   Inl e \<Rightarrow> Inl e
                                 | Inr is_emissive \<Rightarrow> Inr (is_emissive, B1))))
                 else Inl (Exception (''Material not found: '' @ hashed_key)))
           else Inr (False, B))
      | None \<Rightarrow>
          (if mat_default D \<in> set (D_materials B)
           then Inr (False,
                  upd_object ob
                    (\<lambda>b. b\<lparr>ob_materials :=
                            ob_materials b @ [index_of (mat_default D) (D_materials B)]\<rparr>) B)
           else (let (m, B1) = materials_new (mat_default D) B
                 in Inr (False,
                      upd_object ob (\<lambda>b. b\<lparr>ob_materials := ob_materials b @ [m]\<rparr>) B1))))"

text \<open>The body of \<open>for al_mesh in al_meshes\<close>, up to the two \<open>append\<close>s.\<close>

definition import_mesh ::
    "d3d \<Rightarrow> bool \<Rightarrow> (string \<times> Material) list \<Rightarrow> data3d_object \<Rightarrow> al_mesh \<Rightarrow> blender \<Rightarrow>
     py_error + (nat \<times> bool \<times> blender)" where
  "import_mesh D import_mats bl_materials data3d_object al_mesh B =
     (case create_mesh al_mesh of
        Inl e \<Rightarrow> Inl e
      | Inr bl_me \<Rightarrow>
          (let (ob, B1) = objects_new (m_name al_mesh) (Some bl_me) B
           in case (if import_mats
                    then assign_material D bl_materials data3d_object al_mesh ob B1
                    else Inr (False, B1)) of
                Inl e \<Rightarrow> Inl e
              | Inr (is_emissive, B2) \<Rightarrow>
                  (case optimize_mesh (Some ob) (scene_link ob B2) of
                     Inl e \<Rightarrow> Inl e
                   | Inr B3 \<Rightarrow> Inr (ob, is_emissive, B3))))"

fun import_meshes ::
    "d3d \<Rightarrow> bool \<Rightarrow> (string \<times> Material) list \<Rightarrow> data3d_object \<Rightarrow> al_mesh list \<Rightarrow>
     nat list \<Rightarrow> nat list \<Rightarrow> blender \<Rightarrow> py_error + (nat list \<times> nat list \<times> blender)" where
  "import_meshes D import_mats bl_materials data3d_object [] bl_meshes bl_emission_meshes B =
     Inr (bl_meshes, bl_emission_meshes, B)"
| "import_meshes D import_mats bl_materials data3d_object (al_mesh # rest)
       bl_meshes bl_emission_meshes B =
     (case import_mesh D import_mats bl_materials data3d_object al_mesh B of
        Inl e \<Rightarrow> Inl e
      | Inr (ob, is_emissive, B') \<Rightarrow>
          if is_emissive
          then import_meshes D import_mats bl_materials data3d_object rest
                 bl_meshes (bl_emission_meshes @ [ob]) B'
          else import_meshes D import_mats bl_materials data3d_object rest
                 (bl_meshes @ [ob]) bl_emission_meshes B')"

text \<open>\<open>if len(bl_meshes) > 0: ... else: ...\<close>: the node's primary object.\<close>

definition join_primary ::
    "data3d_object \<Rightarrow> nat list \<Rightarrow> blender \<Rightarrow> py_error + (data3d_object \<times> blender)" where
  "join_primary data3d_object bl_meshes B =
     (if length bl_meshes > 0
      then (case join_objects bl_meshes B of
              Inl e \<Rightarrow> Inl e
            | Inr (None, B1) \<Rightarrow> Inl AttributeError
            | Inr (Some joined_object, B1) \<Rightarrow>
                Inr (data3d_object\<lparr>bl_object := Some joined_object\<rparr>,
                     upd_object joined_object (\<lambda>b. b\<lparr>ob_name := node_id data3d_object\<rparr>) B1))
      else (let (ob, B1) = objects_new (node_id data3d_object) None B
            in Inr (data3d_object\<lparr>bl_object := Some ob\<rparr>, scene_link ob B1)))"

text \<open>\<open>if len(bl_emission_meshes) > 0: ...\<close>: the node's emission object.\<close>

definition join_emission ::
    "data3d_object \<Rightarrow> nat list \<Rightarrow> blender \<Rightarrow> py_error + (data3d_object \<times> blender)" where
  "join_emission data3d_object bl_emission_meshes B =
     (if length bl_emission_meshes > 0
      then (case join_objects bl_emission_meshes B of
              Inl e \<Rightarrow> Inl e
            | Inr (None, B1) \<Rightarrow> Inl AttributeError
            | Inr (Some joined_object, B1) \<Rightarrow>
                Inr (data3d_object\<lparr>bl_emission_object := Some joined_object\<rparr>,
                     upd_object joined_object
                       (\<lambda>b. b\<lparr>ob_name := node_id data3d_object @ ''_emission'',
                               ob_shadow := False, ob_camera := False\<rparr>) B1))
      else Inr (data3d_object, B))"

text \<open>The body of the first \<open>for data3d_object in data3d_objects\<close>.\<close>

definition import_node ::
    "d3d \<Rightarrow> bool \<Rightarrow> (string \<times> Material) list \<Rightarrow> data3d_object \<Rightarrow> blender \<Rightarrow>
     py_error + (data3d_object \<times> blender)" where
  "import_node D import_mats bl_materials data3d_object B =
     (case import_meshes D import_mats bl_materials data3d_object (meshes data3d_object) [] [] B of
        Inl e \<Rightarrow> Inl e
      | Inr (bl_meshes, bl_emission_meshes, B1) \<Rightarrow>
          (case join_primary data3d_object bl_meshes B1 of
             Inl e \<Rightarrow> Inl e
           | Inr (d1, B2) \<Rightarrow>
               (case join_emission d1 bl_emission_meshes B2 of
                  Inl e \<Rightarrow> Inl e
                | Inr (d2, B3) \<Rightarrow>
                    (case bl_object d2 of
                       None \<Rightarrow> Inl AttributeError
                     | Some ob \<Rightarrow>
                         Inr (d2, upd_object ob
                                    (\<lambda>b. b\<lparr>ob_location := position d2,
                                            ob_rotation_euler := rotation d2\<rparr>) B3)))))"

fun import_nodes ::
    "d3d \<Rightarrow> bool \<Rightarrow> (string \<times> Material) list \<Rightarrow> data3d_object list \<Rightarrow> blender \<Rightarrow>
     py_error + (data3d_object list \<times> blender)" where
  "import_nodes D import_mats bl_materials [] B = Inr ([], B)"
| "import_nodes D import_mats bl_materials (data3d_object # rest) B =
     (case import_node D import_mats bl_materials data3d_object B of
        Inl e \<Rightarrow> Inl e
      | Inr (d, B1) \<Rightarrow>
          (case import_nodes D import_mats bl_materials rest B1 of
             Inl e \<Rightarrow> Inl e
           | Inr (ds, B2) \<Rightarrow> Inr (d # ds, B2)))"

text \<open>
  The loop that makes the parent-child relationships. \<open>nodes\<close> is the whole decoded list,
  where \<open>parent.bl_object\<close> is read; a parent that is not a node of the list has no host
  object.
\<close>

definition set_parent :: "nat \<Rightarrow> nat option \<Rightarrow> blender \<Rightarrow> blender" where
  "set_parent ob p B =
     (upd_object ob (\<lambda>b. b\<lparr>ob_parent := p\<rparr>) B)\<lparr>events := events B @ [SetParent ob p]\<rparr>"

fun make_parents ::
    "data3d_object list \<Rightarrow> data3d_object list \<Rightarrow> nat option list \<Rightarrow> blender \<Rightarrow>
     py_error + (nat option list \<times> blender)" where
  "make_parents nodes [] bl_root_objects B = Inr (bl_root_objects, B)"
| "make_parents nodes (data3d_object # rest) bl_root_objects B =
     (case parent data3d_object of
        Some p \<Rightarrow>
          (let parent_bl_object = (if p < length nodes then bl_object (nodes ! p) else None)
           in case bl_object data3d_object of
                None \<Rightarrow> Inl AttributeError
              | Some ob \<Rightarrow>
                  (let B1 = set_parent ob parent_bl_object B
                   in case bl_emission_object data3d_object of
                        Some em \<Rightarrow>
                          make_parents nodes rest bl_root_objects (set_parent em parent_bl_object B1)
                      | None \<Rightarrow> make_parents nodes rest bl_root_objects B1))
      | None \<Rightarrow>
          (case bl_emission_object data3d_object of
             Some em \<Rightarrow>
               make_parents nodes rest
                 (bl_root_objects @ [bl_object data3d_object] @ [Some em]) B
           | None \<Rightarrow>
               make_parents nodes rest (bl_root_objects @ [bl_object data3d_object]) B))"

text \<open>\<open>for obj in bl_root_objects: obj.matrix_world = global_matrix\<close>\<close>

fun set_matrix_world :: "matrix \<Rightarrow> nat option list \<Rightarrow> blender \<Rightarrow> py_error + blender" where
  "set_matrix_world g [] B = Inr B"
| "set_matrix_world g (None # rest) B = Inl AttributeError"
| "set_matrix_world g (Some ob # rest) B =
     set_matrix_world g rest
       ((upd_object ob (\<lambda>b. b\<lparr>ob_matrix_world := Some g\<rparr>) B)
          \<lparr>events := events B @ [SetMatrixWorld ob]\<rparr>)"

text \<open>With the hierarchy kept: empty objects of nodes without children are removed.\<close>

fun remove_empty_leaves :: "data3d_object list \<Rightarrow> blender \<Rightarrow> py_error + blender" where
  "remove_empty_leaves [] B = Inr B"
| "remove_empty_leaves (data3d_object # rest) B =
     (case bl_object data3d_object of
        None \<Rightarrow> Inl AttributeError
      | Some ob \<Rightarrow>
          remove_empty_leaves rest
            (if type_of_ob (D_objects B ! ob) = EMPTY \<and> children data3d_object = []
             then scene_unlink_remove ob B else B))"

text \<open>With the hierarchy flattened: the three steps of the \<open>else\<close> branch.\<close>

fun clear_parents :: "nat option list \<Rightarrow> blender \<Rightarrow> py_error + blender" where
  "clear_parents [] B = Inr B"
| "clear_parents (obj # rest) B =
     (case select (Single obj) False B of
        Inl e \<Rightarrow> Inl e
      | Inr B1 \<Rightarrow> clear_parents rest (parent_clear B1))"

fun remove_empties :: "nat option list \<Rightarrow> blender \<Rightarrow> py_error + blender" where
  "remove_empties [] B = Inr B"
| "remove_empties (None # rest) B = Inl AttributeError"
| "remove_empties (Some ob # rest) B =
     remove_empties rest
       (if type_of_ob (D_objects B ! ob) = EMPTY then scene_unlink_remove ob B else B)"

record import_args =
  filepath :: string
  import_materials :: bool
  import_hierarchy :: bool
  import_al_metadata :: bool
  global_matrix :: matrix

text \<open>
  The end of the \<open>try\<close> block: \<open>if import_hierarchy: ... else: ...\<close>.
\<close>

definition finish_hierarchy :: "bool \<Rightarrow> data3d_object list \<Rightarrow> blender \<Rightarrow> py_error + blender" where
  "finish_hierarchy keep_hierarchy nodes B =
     (if keep_hierarchy
      then remove_empty_leaves nodes B
      else (let bl_objects = map bl_object nodes
            in case clear_parents bl_objects B of
                 Inl e \<Rightarrow> Inl e
               | Inr B1 \<Rightarrow>
                   (case normalise_objects (Collection bl_objects) True B1 of
                      Inl e \<Rightarrow> Inl e
                    | Inr B2 \<Rightarrow> remove_empties bl_objects B2)))"

text \<open>The \<open>try\<close> block of \<open>import_scene\<close>, statement by statement.\<close>

definition import_scene_try ::
    "hasher \<Rightarrow> d3d \<Rightarrow> data3d_object list \<Rightarrow> import_args \<Rightarrow> blender \<Rightarrow>
     py_error + (data3d_object list \<times> blender)" where
  "import_scene_try H D data3d_objects kwargs B =
     (case (if import_materials kwargs
            then import_data3d_materials H D data3d_objects (import_al_metadata kwargs) B
            else Inr ([], data3d_objects, B)) of
        Inl e \<Rightarrow> Inl e
      | Inr (bl_materials, nodes1, B1) \<Rightarrow>
     (case import_nodes D (import_materials kwargs) bl_materials nodes1 B1 of
        Inl e \<Rightarrow> Inl e
      | Inr (nodes, B2) \<Rightarrow>
     (case make_parents nodes nodes [] B2 of
        Inl e \<Rightarrow> Inl e
      | Inr (bl_root_objects, B3) \<Rightarrow>
     (case normalise_objects (Collection bl_root_objects) True B3 of
        Inl e \<Rightarrow> Inl e
      | Inr B4 \<Rightarrow>
     (case set_matrix_world (global_matrix kwargs) bl_root_objects B4 of
        Inl e \<Rightarrow> Inl e
      | Inr B5 \<Rightarrow>
     (case finish_hierarchy (import_hierarchy kwargs) nodes B5 of
        Inl e \<Rightarrow> Inl e
      | Inr B6 \<Rightarrow> Inr (nodes, B6)))))))"

text \<open>
  \<open>except: raise Exception('Import Scene failed. ', sys.exc_info())\<close>: whatever is raised
  inside comes out wrapped.
\<close>

datatype scene_error = Import_Scene_failed py_error

definition import_scene ::
    "hasher \<Rightarrow> d3d \<Rightarrow> data3d_object list \<Rightarrow> import_args \<Rightarrow> blender \<Rightarrow>
     scene_error + (data3d_object list \<times> blender)" where
  "import_scene H D data3d_objects kwargs B =
     (case import_scene_try H D data3d_objects kwargs B of
        Inl e \<Rightarrow> Inl (Import_Scene_failed e)
      | Inr r \<Rightarrow> Inr r)"

section \<open>The specification's words, and sample data\<close>

text \<open>
  The specification's equality of two raw materials: they agree on every
  comparison-relevant key, in presence and in value, a list counting as the tuple of its
  elements.
\<close>

definition same_relevant_fields :: "d3d \<Rightarrow> bool \<Rightarrow> al_material \<Rightarrow> al_material \<Rightarrow> bool" where
  "same_relevant_fields D import_metadata A B =
     list_all (\<lambda>k. map_option as_tuple (map_of A k) = map_option as_tuple (map_of B k))
       (compare_keys D import_metadata)"

text \<open>A hasher, two materials and a mesh for evaluating the model.\<close>

definition sample_hasher :: hasher where
  "sample_hasher =
     \<lparr>hash_str = (\<lambda>s. int (length s)), hash_float = (\<lambda>x. \<lfloor>2 * x\<rfloor>), hash_none = 7,
      hash_tuple = (\<lambda>hs. 31 * sum_list hs + 5), hash_frozenset = (\<lambda>M. sum_mset M + 11)\<rparr>"

definition mat_grey :: al_material where
  "mat_grey = [(''colorDiffuse'', PyList [PyFloat 0.5, PyFloat 0.5, PyFloat 0.5])]"

definition mat_grey_named :: al_material where
  "mat_grey_named =
     [(''name'', PyStr ''wall''),
      (''colorDiffuse'', PyList [PyFloat 0.5, PyFloat 0.5, PyFloat 0.5])]"

definition mat_glass :: al_material where
  "mat_glass = [(''opacity'', PyFloat 0.5), (''specularCoef'', PyInt 20)]"

definition tri_mesh :: al_mesh where
  "tri_mesh =
     \<lparr>m_name = ''tri'', verts_loc = [[0, 0, 0], [1, 0, 0], [0, 1, 0], [1, 1, 0]],
      verts_nor = [[0, 0, 1]], verts_uvs = [], verts_uvs2 = [],
      faces = [([0, 1, 2], [0, 0, 0], [], []), ([1, 3, 2], [0, 0, 0], [], [])],
      material = None\<rparr>"

definition sample_node ::
    "string \<Rightarrow> (string \<times> al_material) list \<Rightarrow> al_mesh list \<Rightarrow> nat option \<Rightarrow> data3d_object" where
  "sample_node nid mats ms p =
     \<lparr>node_id = nid, meshes = ms, materials = mats, mat_hash_map = [], parent = p,
      children = [], position = [0, 0, 0], rotation = [0, 0, 0],
      bl_object = None, bl_emission_object = None\<rparr>"

definition empty_blender :: blender where
  "empty_blender = \<lparr>D_materials = [], D_objects = [], events = []\<rparr>"

definition two_nodes :: "data3d_object list" where
  "two_nodes =
     [sample_node ''n1'' [(''a'', mat_grey)] [] None,
      sample_node ''n2'' [(''b'', mat_grey_named), (''c'', mat_glass)] [] (Some 0)]"

definition axis_matrix :: matrix where
  "axis_matrix = [[1, 0, 0, 0], [0, 0, - 1, 0], [0, 1, 0, 0], [0, 0, 0, 1]]"

definition sample_args :: "bool \<Rightarrow> bool \<Rightarrow> import_args" where
  "sample_args import_mats keep_hierarchy =
     \<lparr>filepath = ''scene.data3d.json'', import_materials = import_mats,
      import_hierarchy = keep_hierarchy, import_al_metadata = False,
      global_matrix = axis_matrix\<rparr>"

definition glow_scene :: "data3d_object list" where
  "glow_scene =
     [sample_node ''lamp'' [(''glow'', [(''lightEmissionCoef'', PyFloat 2)])]
        [tri_mesh\<lparr>material := Some ''glow''\<rparr>] None]"

definition dangling_scene :: "data3d_object list" where
  "dangling_scene =
     [sample_node ''wall'' [] [tri_mesh\<lparr>material := Some ''missing''\<rparr>] None]"

definition empty_key_scene :: "data3d_object list" where
  "empty_key_scene = [sample_node ''wall'' [] [tri_mesh\<lparr>material := Some []\<rparr>] None]"

definition plain_scene :: "data3d_object list" where
  "plain_scene =
     [(sample_node ''root'' [] [tri_mesh] None)\<lparr>children := [1], position := [1, 2, 3]\<rparr>,
      sample_node ''leaf'' [] [tri_mesh] (Some 0)]"

text \<open>Two hosts, each with one object: one has a material named as the default, one has not.\<close>

definition bare_object :: bl_object where
  "bare_object =
     \<lparr>ob_name = ''tri'', ob_data = None, ob_materials = [], ob_parent = None,
      ob_location = [0, 0, 0], ob_rotation_euler = [0, 0, 0], ob_matrix_world = None,
      ob_select = False, ob_linked = False, ob_removed = False,
      ob_shadow = True, ob_camera = True, ob_applied = []\<rparr>"

definition host_without_default :: blender where
  "host_without_default = \<lparr>D_materials = [''3426''], D_objects = [bare_object], events = []\<rparr>"

definition host_with_default :: blender where
  "host_with_default =
     \<lparr>D_materials = [''3426'', ''al_default'', ''1261''], D_objects = [bare_object], events = []\<rparr>"

section \<open>Notions for stating the deduplicator's result\<close>

text \<open>
  All raw materials of a node list in the order the deduplicator meets them; the pair
  (hash, reduced record) of a raw material that hashes; the per-node map from local key
  to the string of the hash; and what a table of \<open>Material\<close> objects holds apart from
  the references to host materials.
\<close>

definition raw_materials_in_order :: "data3d_object list \<Rightarrow> al_material list" where
  "raw_materials_in_order objs = concat (map (\<lambda>d. map snd (materials d)) objs)"

definition hashed :: "hasher \<Rightarrow> d3d \<Rightarrow> bool \<Rightarrow> al_material \<Rightarrow> int \<times> al_material" where
  "hashed H D md raw =
     (case get_al_material_hash H D md raw of Inr p \<Rightarrow> p | Inl e \<Rightarrow> (0, []))"

definition hash_map_of ::
    "hasher \<Rightarrow> d3d \<Rightarrow> bool \<Rightarrow> (string \<times> al_material) list \<Rightarrow> (string \<times> string) list" where
  "hash_map_of H D md ms = map (\<lambda>(k, raw). (k, str_int (fst (hashed H D md raw)))) ms"

definition table_of :: "(string \<times> Material) list \<Rightarrow> (string \<times> al_material) list" where
  "table_of bl_materials = map (\<lambda>(k, m). (k, mat_al_material m)) bl_materials"

text \<open>Closed forms of the two loops, used in the proofs.\<close>

fun first_seen ::
    "(int \<times> al_material) list \<Rightarrow> (int \<times> al_material) list \<Rightarrow> (int \<times> al_material) list" where
  "first_seen tbl [] = tbl"
| "first_seen tbl ((h, r) # hs) =
     first_seen (if map_of tbl h = None then tbl @ [(h, r)] else tbl) hs"

definition stamp :: "hasher \<Rightarrow> d3d \<Rightarrow> bool \<Rightarrow> data3d_object \<Rightarrow> data3d_object" where
  "stamp H D md d = d\<lparr>mat_hash_map :=
      fold (\<lambda>(k, raw). AList.update k (str_int (fst (hashed H D md raw)))) (materials d) []\<rparr>"

definition digits_value :: "string \<Rightarrow> nat" where
  "digits_value s = foldl (\<lambda>a c. 10 * a + (of_char c - 48)) 0 s"

section \<open>Notions for stating the scene builder's result\<close>

text \<open>
  The host objects a node refers to, and the host objects of the nodes without a parent,
  in node order: the root-level objects.
\<close>

definition node_obs :: "data3d_object \<Rightarrow> nat list" where
  "node_obs d =
     (case bl_object d of None \<Rightarrow> [] | Some ob \<Rightarrow> [ob]) @
     (case bl_emission_object d of None \<Rightarrow> [] | Some em \<Rightarrow> [em])"

definition root_objects :: "data3d_object list \<Rightarrow> nat list" where
  "root_objects nodes = concat (map node_obs (filter (\<lambda>d. parent d = None) nodes))"

text \<open>
  Relations between two host states, used in the proofs: no object's world matrix or
  baked transforms changed; that, and no event was recorded; and the same with new
  objects (unbaked, without a world matrix) appended.
\<close>

definition same_transforms :: "blender \<Rightarrow> blender \<Rightarrow> bool" where
  "same_transforms B B' \<longleftrightarrow>
     map ob_applied (D_objects B') = map ob_applied (D_objects B) \<and>
     map ob_matrix_world (D_objects B') = map ob_matrix_world (D_objects B)"

definition keeps :: "blender \<Rightarrow> blender \<Rightarrow> bool" where
  "keeps B B' \<longleftrightarrow> same_transforms B B' \<and> events B' = events B"

definition grows :: "blender \<Rightarrow> blender \<Rightarrow> bool" where
  "grows B B' \<longleftrightarrow>
     (\<exists>k. map ob_applied (D_objects B') = map ob_applied (D_objects B) @ replicate k [] \<and>
          map ob_matrix_world (D_objects B') =
            map ob_matrix_world (D_objects B) @ replicate k None) \<and>
     events B' = events B"

text \<open>What the parent loop appends to \<open>bl_root_objects\<close> for one node.\<close>

definition root_refs :: "data3d_object \<Rightarrow> nat option list" where
  "root_refs d = (if parent d = None
     then [bl_object d] @ (case bl_emission_object d of Some em \<Rightarrow> [Some em] | None \<Rightarrow> [])
     else [])"

section \<open>Properties of the material hash\<close>

lemma collect_hash_nodes_cong:
  "(\<And>k. k \<in> set keys \<Longrightarrow> map_option as_tuple (map_of A k) = map_option as_tuple (map_of B k))
   \<Longrightarrow> collect_hash_nodes keys A hn = collect_hash_nodes keys B hn"
proof (induction keys arbitrary: hn)
  case Nil
  then show ?case by simp
next
  case (Cons key keys)
  have k: "map_option as_tuple (map_of A key) = map_option as_tuple (map_of B key)"
    using Cons.prems by simp
  have step: "(case map_of A key of Some val \<Rightarrow> AList.update key (as_tuple val) hn | None \<Rightarrow> hn)
      = (case map_of B key of Some val \<Rightarrow> AList.update key (as_tuple val) hn | None \<Rightarrow> hn)"
    using k by (cases "map_of A key"; cases "map_of B key") auto
  show ?case
    using Cons.IH [of "case map_of B key of Some val \<Rightarrow> AList.update key (as_tuple val) hn | None \<Rightarrow> hn"]
      Cons.prems step by simp
qed

lemma map_of_collect_hash_nodes:
  "map_of (collect_hash_nodes keys A hn) k =
     (if k \<in> set keys \<and> map_of A k \<noteq> None then map_option as_tuple (map_of A k) else map_of hn k)"
proof (induction keys arbitrary: hn)
  case Nil
  then show ?case by simp
next
  case (Cons key keys)
  show ?case
    by (cases "map_of A key") (auto simp: Cons.IH AList.update_conv')
qed

lemma collect_eq_iff:
  "collect_hash_nodes keys A [] = collect_hash_nodes keys B [] \<longleftrightarrow>
   (\<forall>k\<in>set keys. map_option as_tuple (map_of A k) = map_option as_tuple (map_of B k))"
proof
  assume eq: "collect_hash_nodes keys A [] = collect_hash_nodes keys B []"
  show "\<forall>k\<in>set keys. map_option as_tuple (map_of A k) = map_option as_tuple (map_of B k)"
  proof
    fix k assume k: "k \<in> set keys"
    have "map_of (collect_hash_nodes keys A []) k = map_of (collect_hash_nodes keys B []) k"
      using eq by simp
    then show "map_option as_tuple (map_of A k) = map_option as_tuple (map_of B k)"
      using k by (auto simp: map_of_collect_hash_nodes split: if_splits)
  qed
next
  assume "\<forall>k\<in>set keys. map_option as_tuple (map_of A k) = map_option as_tuple (map_of B k)"
  then show "collect_hash_nodes keys A [] = collect_hash_nodes keys B []"
    by (intro collect_hash_nodes_cong) simp
qed

lemma update_update_same: "AList.update k v (AList.update k v hn) = AList.update k v hn"
  by (induction hn) auto

lemma collect_singleton:
  "collect_hash_nodes keys [(k, v)] hn =
     (if k \<in> set keys then AList.update k (as_tuple v) hn else hn)"
proof (induction keys arbitrary: hn)
  case Nil
  then show ?case by simp
next
  case (Cons key keys)
  then show ?case by (auto simp: update_update_same)
qed

text \<open>
  C1, as amended. Two raw materials that agree on every comparison-relevant key (the same
  keys present, the same values, lists taken as tuples) get the same result from
  \<open>get_al_material_hash\<close>: the same hash and the same reduced record, or the same error.
  The reduced records are equal exactly when the materials agree so; keys outside the
  comparison set and keys absent in both play no part. Equal hashes alone do not give
  agreement.
\<close>

theorem hash_of_agreeing_materials:
  "(same_relevant_fields D md A B \<longrightarrow>
      get_al_material_hash H D md A = get_al_material_hash H D md B) \<and>
   (collect_hash_nodes (compare_keys D md) A [] = collect_hash_nodes (compare_keys D md) B []
      \<longleftrightarrow> same_relevant_fields D md A B)"
proof -
  have iff: "collect_hash_nodes (compare_keys D md) A [] = collect_hash_nodes (compare_keys D md) B []
      \<longleftrightarrow> same_relevant_fields D md A B"
    unfolding same_relevant_fields_def list_all_iff by (rule collect_eq_iff)
  have "get_al_material_hash H D md A = get_al_material_hash H D md B"
    if "same_relevant_fields D md A B"
    using that iff by (simp add: get_al_material_hash_def)
  then show ?thesis using iff by blast
qed

theorem hash_of_agreeing_materials_witness:
  "same_relevant_fields d3d_keys False mat_grey mat_grey_named \<and>
   get_al_material_hash sample_hasher d3d_keys False mat_grey =
     get_al_material_hash sample_hasher d3d_keys False mat_grey_named"
proof -
  have s: "same_relevant_fields d3d_keys False mat_grey mat_grey_named"
    by (simp add: same_relevant_fields_def compare_keys_def d3d_keys_def mat_grey_def
        mat_grey_named_def)
  show ?thesis
    using s hash_of_agreeing_materials [of d3d_keys False mat_grey mat_grey_named sample_hasher]
    by blast
qed

text \<open>
  The claim C1 as stated fails in its "only if": whatever the string hash and the
  combining functions are, the materials \<open>{specularCoef: -1}\<close> and \<open>{specularCoef: -2}\<close>
  hash alike, because the interpreter hashes both \<open>-1\<close> and \<open>-2\<close> to \<open>-2\<close>.
\<close>

theorem equal_hash_of_different_materials:
  "\<not> (\<exists>H D md. \<forall>A B.
      (\<exists>h ra rb. get_al_material_hash H D md A = Inr (h, ra) \<and>
                 get_al_material_hash H D md B = Inr (h, rb))
      \<longrightarrow> same_relevant_fields D md A B)"
proof
  assume "\<exists>H D md. \<forall>A B.
      (\<exists>h ra rb. get_al_material_hash H D md A = Inr (h, ra) \<and>
                 get_al_material_hash H D md B = Inr (h, rb))
      \<longrightarrow> same_relevant_fields D md A B"
  then obtain H D md where all: "\<And>A B.
      (\<exists>h ra rb. get_al_material_hash H D md A = Inr (h, ra) \<and>
                 get_al_material_hash H D md B = Inr (h, rb))
      \<Longrightarrow> same_relevant_fields D md A B" by blast
  let ?k = "coef_spec D"
  let ?A = "[(?k, PyInt (- 1))]" and ?B = "[(?k, PyInt (- 2))]"
  have k: "?k \<in> set (compare_keys D md)" by (simp add: compare_keys_def)
  have lh: "long_hash (- 1) = - 2" "long_hash (- 2) = - 2"
    by (simp_all add: long_hash_def PyHASH_MODULUS_def)
  have a: "get_al_material_hash H D md ?A =
      Inr (hash_frozenset H {# hash_tuple H [hash_str H ?k, - 2] #}, [(?k, PyInt (- 1))])"
    using k by (simp add: get_al_material_hash_def collect_singleton hash_items_def lh)
  have b: "get_al_material_hash H D md ?B =
      Inr (hash_frozenset H {# hash_tuple H [hash_str H ?k, - 2] #}, [(?k, PyInt (- 2))])"
    using k by (simp add: get_al_material_hash_def collect_singleton hash_items_def lh)
  have "same_relevant_fields D md ?A ?B" using all a b by blast
  then show False
    using k by (auto simp: same_relevant_fields_def list_all_iff)
qed

text \<open>
  C4. The result of \<open>get_al_material_hash\<close> does not depend on the order in which the raw
  material's mapping enumerates its entries: two enumerations of the same key/value pairs
  (keys distinct, as in a dict) give the same hash and the same reduced record.
\<close>

theorem hash_order_independent:
  assumes "distinct (map fst A)" and "distinct (map fst B)" and "set A = set B"
  shows "get_al_material_hash H D md A = get_al_material_hash H D md B"
proof -
  have "map_of A = map_of B"
    using assms by (simp add: map_of_inject_set)
  then have "collect_hash_nodes keys A hn = collect_hash_nodes keys B hn" for keys hn
    by (intro collect_hash_nodes_cong) simp
  then show ?thesis by (simp add: get_al_material_hash_def)
qed

theorem hash_order_independent_witness:
  "get_al_material_hash sample_hasher d3d_keys True mat_glass =
     get_al_material_hash sample_hasher d3d_keys True (rev mat_glass)"
proof -
  have d: "distinct (map fst mat_glass)" "distinct (map fst (rev mat_glass))"
    "set mat_glass = set (rev mat_glass)"
    by (simp_all add: mat_glass_def insert_commute)
  show ?thesis
    using hash_order_independent [OF d, of sample_hasher d3d_keys True] by simp
qed

section \<open>Properties of the mesh assembler\<close>

lemma face_loops_eq:
  "face_loops fs lvi fls flt l =
     (lvi @ concat (map fst fs), fls @ map (\<lambda>i. l + 3 * i) [0..<length fs],
      flt @ replicate (length fs) 3, l + 3 * length fs)"
proof (induction fs arbitrary: lvi fls flt l)
  case Nil
  then show ?case by simp
next
  case (Cons f fs)
  have "map (\<lambda>i. l + 3 * i) [0..<Suc (length fs)] = l # map (\<lambda>i. l + 3 + 3 * i) [0..<length fs]"
    by (simp add: upt_conv_Cons map_Suc_upt [symmetric] del: upt_Suc)
  then show ?case
    by (simp add: Cons.IH Let_def replicate_app_Cons_same)
qed

lemma create_mesh_tri_mesh:
  "create_mesh tri_mesh =
     Inr \<lparr>me_name = ''tri'', me_vertices = [[0, 0, 0], [1, 0, 0], [0, 1, 0], [1, 1, 0]],
          me_loops_total = 6, me_loops_vertex_index = [0, 1, 2, 1, 3, 2],
          me_polygons_loop_start = [0, 3], me_polygons_loop_total = [3, 3],
          me_loops_normal = [[0, 0, 1], [0, 0, 1], [0, 0, 1], [0, 0, 1], [0, 0, 1], [0, 0, 1]],
          me_uv = [], me_uv2 = []\<rparr>"
  by (simp add: create_mesh_def tri_mesh_def upt_conv_Cons numeral_eq_Suc)

text \<open>
  C6. For a mesh that \<open>create_mesh\<close> assembles from \<open>n\<close> faces, each with three vertex
  indices: there is one loop start per face, \<open>loop_start[i] + 3 = loop_start[i+1]\<close> for
  every \<open>i < n - 1\<close>, \<open>loop_start[0] = 0\<close> (when there is a face), every loop total is
  \<open>3\<close>, the mesh is given \<open>3 * n\<close> loops, and \<open>3 * n\<close> loop vertex indices are emitted.
\<close>

theorem loop_bookkeeping:
  assumes "\<forall>f\<in>set (faces data). length (fst f) = 3" and "create_mesh data = Inr me"
  shows "length (me_polygons_loop_start me) = length (faces data) \<and>
         (\<forall>i. i + 1 < length (faces data) \<longrightarrow>
              me_polygons_loop_start me ! i + 3 = me_polygons_loop_start me ! (i + 1)) \<and>
         (0 < length (faces data) \<longrightarrow> me_polygons_loop_start me ! 0 = 0) \<and>
         me_polygons_loop_total me = replicate (length (faces data)) 3 \<and>
         me_loops_total me = 3 * length (faces data) \<and>
         length (me_loops_vertex_index me) = 3 * length (faces data)"
proof -
  have len: "length (concat (map fst fs)) = 3 * length fs"
    if "\<forall>f\<in>set fs. length (fst f) = 3" for fs :: "face list"
    using that by (induction fs) auto
  from assms(2) have me:
    "me_polygons_loop_start me = map (\<lambda>i. 3 * i) [0..<length (faces data)]"
    "me_polygons_loop_total me = replicate (length (faces data)) 3"
    "me_loops_total me = 3 * length (faces data)"
    "me_loops_vertex_index me = concat (map fst (faces data))"
    by (auto simp: create_mesh_def face_loops_eq Let_def split: sum.splits prod.splits)
  show ?thesis
    using len [OF assms(1)] by (simp add: me)
qed

theorem loop_bookkeeping_witness:
  "\<exists>me. create_mesh tri_mesh = Inr me \<and>
        me_polygons_loop_start me ! 0 = 0 \<and>
        me_polygons_loop_start me ! 0 + 3 = me_polygons_loop_start me ! 1 \<and>
        me_polygons_loop_total me = [3, 3] \<and>
        me_loops_total me = 6 \<and>
        length (me_loops_vertex_index me) = 6"
proof -
  have f: "\<forall>f\<in>set (faces tri_mesh). length (fst f) = 3"
    by (simp add: tri_mesh_def)
  have n: "length (faces tri_mesh) = 2"
    by (simp add: tri_mesh_def)
  show ?thesis
    using loop_bookkeeping [OF f create_mesh_tri_mesh] n
    by (auto simp: numeral_eq_Suc create_mesh_tri_mesh)
qed

section \<open>Properties of the material deduplicator\<close>

lemma digits_value_digit: "d < 10 \<Longrightarrow> of_char (digit_char d) - 48 = (d::nat)"
  by (simp add: digit_char_def)

lemma digits_value_str_nat: "digits_value (str_nat n) = n"
proof (induction n rule: str_nat.induct)
  case (1 n)
  show ?case
  proof (cases "n < 10")
    case True
    then show ?thesis
      by (subst str_nat.simps) (simp add: digits_value_def digits_value_digit)
  next
    case False
    have "digits_value (str_nat (n div 10)) = n div 10"
      using 1 False by simp
    then show ?thesis
      using False
      by (subst str_nat.simps) (simp add: digits_value_def digits_value_digit)
  qed
qed

lemma str_nat_inj: "str_nat m = str_nat n \<Longrightarrow> m = n"
  by (metis digits_value_str_nat)

lemma str_nat_no_minus: "CHR ''-'' \<notin> set (str_nat n)"
proof (induction n rule: str_nat.induct)
  case (1 n)
  have d: "CHR ''-'' \<noteq> digit_char k" if "k < 10" for k
  proof
    assume "CHR ''-'' = digit_char k"
    then have "of_char (digit_char k) = (of_char (CHR ''-'') :: nat)" by simp
    then show False using that by (simp add: digit_char_def)
  qed
  show ?case
  proof (cases "n < 10")
    case True
    then show ?thesis by (subst str_nat.simps) (simp add: d)
  next
    case False
    then show ?thesis using 1 by (subst str_nat.simps) (simp add: d)
  qed
qed

lemma str_int_inj: "str_int i = str_int j \<Longrightarrow> i = j"
proof -
  assume eq: "str_int i = str_int j"
  have ne: "str_nat m \<noteq> CHR ''-'' # s" for m s
    using str_nat_no_minus [of m] by (metis list.set_intros(1))
  show ?thesis
  proof (cases "i < 0"; cases "j < 0")
    assume "i < 0" "j < 0"
    then show ?thesis using eq str_nat_inj by (fastforce simp: str_int_def)
  next
    assume "i < 0" "\<not> j < 0"
    then show ?thesis using eq ne by (auto simp: str_int_def dest: sym)
  next
    assume "\<not> i < 0" "j < 0"
    then show ?thesis using eq ne by (auto simp: str_int_def)
  next
    assume "\<not> i < 0" "\<not> j < 0"
    then show ?thesis using eq str_nat_inj by (fastforce simp: str_int_def)
  qed
qed

lemma str_int_nonempty: "str_int i \<noteq> []"
  by (simp add: str_int_def) (subst str_nat.simps, simp)

lemma first_seen_append: "first_seen tbl (xs @ ys) = first_seen (first_seen tbl xs) ys"
  by (induction xs arbitrary: tbl) auto

lemma map_of_first_seen: "map_of (first_seen tbl hs) k = map_of (tbl @ hs) k"
proof (induction hs arbitrary: tbl)
  case Nil
  then show ?case by simp
next
  case (Cons p hs)
  obtain h r where p: "p = (h, r)" by (cases p)
  show ?case
    by (auto simp: p Cons.IH map_add_def split: option.splits)
qed

lemma keys_first_seen: "fst ` set (first_seen tbl hs) = fst ` set tbl \<union> fst ` set hs"
proof (induction hs arbitrary: tbl)
  case Nil
  then show ?case by simp
next
  case (Cons p hs)
  obtain h r where p: "p = (h, r)" by (cases p)
  show ?case
    by (auto simp: p Cons.IH map_of_eq_None_iff)
qed

lemma distinct_first_seen:
  "distinct (map fst tbl) \<Longrightarrow> distinct (map fst (first_seen tbl hs))"
proof (induction hs arbitrary: tbl)
  case Nil
  then show ?case by simp
next
  case (Cons p hs)
  obtain h r where p: "p = (h, r)" by (cases p)
  show ?case
    using Cons.prems by (auto simp: p map_of_eq_None_iff intro!: Cons.IH)
qed

lemma update_fresh: "k \<notin> fst ` set al \<Longrightarrow> AList.update k v al = al @ [(k, v)]"
  by (induction al) auto

lemma hash_raw_materials_Inr_iff:
  "hash_raw_materials H D md ms mhm tbl = Inr r \<longleftrightarrow>
     (\<forall>raw\<in>snd ` set ms. \<exists>p. get_al_material_hash H D md raw = Inr p) \<and>
     r = (fold (\<lambda>(k, raw). AList.update k (str_int (fst (hashed H D md raw)))) ms mhm,
          first_seen tbl (map (\<lambda>(k, raw). hashed H D md raw) ms))"
proof (induction ms arbitrary: mhm tbl)
  case Nil
  then show ?case by auto
next
  case (Cons m ms)
  obtain k raw where m: "m = (k, raw)" by (cases m)
  show ?case
  proof (cases "get_al_material_hash H D md raw")
    case (Inl e)
    then show ?thesis by (auto simp: m)
  next
    case (Inr p)
    obtain h al where p: "p = (h, al)" by (cases p)
    have hd: "hashed H D md raw = (h, al)" by (simp add: hashed_def Inr p)
    show ?thesis
      by (simp add: m Inr p hd Cons.IH)
  qed
qed

lemma fold_update_distinct:
  "distinct (map fst ms) \<Longrightarrow> fst ` set ms \<inter> fst ` set acc = {} \<Longrightarrow>
   fold (\<lambda>(k, raw). AList.update k (f raw)) ms acc = acc @ map (\<lambda>(k, raw). (k, f raw)) ms"
proof (induction ms arbitrary: acc)
  case Nil
  then show ?case by simp
next
  case (Cons m ms)
  obtain k raw where m: "m = (k, raw)" by (cases m)
  have fresh: "k \<notin> fst ` set acc" using Cons.prems by (auto simp: m)
  have "fold (\<lambda>(k, raw). AList.update k (f raw)) ms (acc @ [(k, f raw)]) =
        (acc @ [(k, f raw)]) @ map (\<lambda>(k, raw). (k, f raw)) ms"
    using Cons.prems by (intro Cons.IH) (auto simp: m)
  then show ?case by (simp add: m update_fresh [OF fresh])
qed

lemma hash_objects_Inr_iff:
  "hash_objects H D md objs tbl = Inr r \<longleftrightarrow>
     (\<forall>raw\<in>set (raw_materials_in_order objs). \<exists>p. get_al_material_hash H D md raw = Inr p) \<and>
     r = (map (stamp H D md) objs,
          first_seen tbl (map (hashed H D md) (raw_materials_in_order objs)))"
proof (induction objs arbitrary: tbl r)
  case Nil
  then show ?case by (auto simp: raw_materials_in_order_def)
next
  case (Cons d objs)
  have raws: "raw_materials_in_order (d # objs) = map snd (materials d) @ raw_materials_in_order objs"
    by (simp add: raw_materials_in_order_def)
  have m: "map (\<lambda>(k, raw). hashed H D md raw) ms = map (hashed H D md) (map snd ms)" for ms :: "(string \<times> al_material) list"
    by (induction ms) auto
  show ?case
  proof (cases "hash_raw_materials H D md (materials d) [] tbl")
    case (Inl e)
    then have "\<not> (\<forall>raw\<in>snd ` set (materials d). \<exists>p. get_al_material_hash H D md raw = Inr p)"
      using hash_raw_materials_Inr_iff [of H D md "materials d" "[]" tbl] by auto
    then show ?thesis using Inl by (auto simp: raws)
  next
    case (Inr q)
    then have ok: "\<forall>raw\<in>snd ` set (materials d). \<exists>p. get_al_material_hash H D md raw = Inr p"
      and q: "q = (mat_hash_map (stamp H D md d),
          first_seen tbl (map (hashed H D md) (map snd (materials d))))"
      using hash_raw_materials_Inr_iff [of H D md "materials d" "[]" tbl q]
      by (auto simp: stamp_def m)
    show ?thesis
    proof (cases "hash_objects H D md objs (snd q)")
      case (Inl e)
      then have "\<not> (\<forall>raw\<in>set (raw_materials_in_order objs). \<exists>p. get_al_material_hash H D md raw = Inr p)"
        using Cons.IH [of "snd q"] by auto
      then show ?thesis using Inl Inr q by (auto simp: raws)
    next
      case inr2: (Inr r2)
      then have ok2: "\<forall>raw\<in>set (raw_materials_in_order objs). \<exists>p. get_al_material_hash H D md raw = Inr p"
        and r2: "r2 = (map (stamp H D md) objs,
          first_seen (snd q) (map (hashed H D md) (raw_materials_in_order objs)))"
        using Cons.IH [of "snd q" r2] by auto
      have st: "d\<lparr>mat_hash_map := mat_hash_map (stamp H D md d)\<rparr> = stamp H D md d"
        by (simp add: stamp_def)
      show ?thesis
        using ok ok2 Inr inr2 by (auto simp: q r2 raws first_seen_append st)
    qed
  qed
qed

lemma table_of_update:
  "table_of (AList.update k m al) = AList.update k (mat_al_material m) (table_of al)"
  by (induction al) (auto simp: table_of_def)

lemma table_of_create_materials:
  "table_of (fst (create_materials md tbl acc B)) =
     fold (\<lambda>(h, r). AList.update (str_int h) r) tbl (table_of acc)"
proof (induction tbl arbitrary: acc B)
  case Nil
  then show ?case by simp
next
  case (Cons p tbl)
  obtain h r where p: "p = (h, r)" by (cases p)
  show ?case
    by (simp add: p Material_init_def materials_new_def Cons.IH table_of_update)
qed

lemma fold_update_str_int:
  "distinct (map fst tbl) \<Longrightarrow> str_int ` fst ` set tbl \<inter> fst ` set acc = {} \<Longrightarrow>
   fold (\<lambda>(h, r). AList.update (str_int h) r) tbl acc = acc @ map (\<lambda>(h, r). (str_int h, r)) tbl"
proof (induction tbl arbitrary: acc)
  case Nil
  then show ?case by simp
next
  case (Cons p tbl)
  obtain h r where p: "p = (h, r)" by (cases p)
  have fresh: "str_int h \<notin> fst ` set acc" using Cons.prems by (auto simp: p)
  have "str_int ` fst ` set tbl \<inter> fst ` set (acc @ [(str_int h, r)]) = {}"
    using Cons.prems by (auto simp: p dest: str_int_inj)
  then have "fold (\<lambda>(h, r). AList.update (str_int h) r) tbl (acc @ [(str_int h, r)]) =
        (acc @ [(str_int h, r)]) @ map (\<lambda>(h, r). (str_int h, r)) tbl"
    using Cons.prems by (intro Cons.IH) (auto simp: p)
  then show ?case by (simp add: p update_fresh [OF fresh])
qed

lemma map_of_str_int_keys:
  "map_of (map (\<lambda>(h, r). (str_int h, r)) tbl) (str_int h) = map_of tbl h"
  by (induction tbl) (auto dest: str_int_inj)

lemma import_data3d_materials_Inr_iff:
  "import_data3d_materials H D objs md B = Inr (blm, objs', B') \<longleftrightarrow>
     (\<forall>raw\<in>set (raw_materials_in_order objs). \<exists>p. get_al_material_hash H D md raw = Inr p) \<and>
     objs' = map (stamp H D md) objs \<and>
     (blm, B') = create_materials md
        (first_seen [] (map (hashed H D md) (raw_materials_in_order objs))) [] B"
proof (cases "hash_objects H D md objs []")
  case (Inl e)
  then show ?thesis
    using hash_objects_Inr_iff [of H D md objs "[]"]
    by (auto simp: import_data3d_materials_def)
next
  case (Inr r)
  then show ?thesis
    using hash_objects_Inr_iff [of H D md objs "[]" r]
    by (auto simp: import_data3d_materials_def split: prod.splits)
qed

lemma table_of_import:
  assumes "import_data3d_materials H D objs md B = Inr (blm, objs', B')"
  shows "table_of blm = map (\<lambda>(h, r). (str_int h, r))
           (first_seen [] (map (hashed H D md) (raw_materials_in_order objs)))"
proof -
  let ?tbl = "first_seen [] (map (hashed H D md) (raw_materials_in_order objs))"
  have "blm = fst (create_materials md ?tbl [] B)"
    using assms by (simp add: import_data3d_materials_Inr_iff) (metis fst_conv)
  then have "table_of blm = fold (\<lambda>(h, r). AList.update (str_int h) r) ?tbl (table_of [])"
    by (simp add: table_of_create_materials)
  also have "\<dots> = table_of [] @ map (\<lambda>(h, r). (str_int h, r)) ?tbl"
    by (intro fold_update_str_int) (simp_all add: distinct_first_seen table_of_def)
  finally show ?thesis by (simp add: table_of_def)
qed

lemma stamp_distinct:
  "distinct (map fst (materials d)) \<Longrightarrow>
   mat_hash_map (stamp H D md d) = hash_map_of H D md (materials d)"
  using fold_update_distinct [of "materials d" "[]" "\<lambda>raw. str_int (fst (hashed H D md raw))"]
  by (simp add: stamp_def hash_map_of_def)

lemma hash_mat_grey:
  "get_al_material_hash sample_hasher d3d_keys False mat_grey =
     Inr (3426, [(''colorDiffuse'', PyTuple [PyFloat 0.5, PyFloat 0.5, PyFloat 0.5])])"
  by (simp add: get_al_material_hash_def compare_keys_def d3d_keys_def mat_grey_def
      hash_items_def sample_hasher_def)

lemma hash_mat_grey_named:
  "get_al_material_hash sample_hasher d3d_keys False mat_grey_named =
     Inr (3426, [(''colorDiffuse'', PyTuple [PyFloat 0.5, PyFloat 0.5, PyFloat 0.5])])"
  by (simp add: get_al_material_hash_def compare_keys_def d3d_keys_def mat_grey_named_def
      hash_items_def sample_hasher_def)

lemma hash_mat_glass:
  "get_al_material_hash sample_hasher d3d_keys False mat_glass =
     Inr (1261, [(''specularCoef'', PyInt 20), (''opacity'', PyFloat 0.5)])"
  by (simp add: get_al_material_hash_def compare_keys_def d3d_keys_def mat_glass_def
      hash_items_def sample_hasher_def long_hash_def PyHASH_MODULUS_def)

lemma str_int_3426: "str_int 3426 = ''3426''"
  by code_simp

lemma str_int_1261: "str_int 1261 = ''1261''"
  by code_simp

lemma import_two_nodes:
  "import_data3d_materials sample_hasher d3d_keys two_nodes False empty_blender =
     Inr ([(''3426'',
            \<lparr>mat_al_material = [(''colorDiffuse'', PyTuple [PyFloat 0.5, PyFloat 0.5, PyFloat 0.5])],
             mat_al_material_hash = ''3426'', mat_import_metadata = False, mat_bl_material = 0\<rparr>),
           (''1261'',
            \<lparr>mat_al_material = [(''specularCoef'', PyInt 20), (''opacity'', PyFloat 0.5)],
             mat_al_material_hash = ''1261'', mat_import_metadata = False, mat_bl_material = 1\<rparr>)],
          [(sample_node ''n1'' [(''a'', mat_grey)] [] None)\<lparr>mat_hash_map := [(''a'', ''3426'')]\<rparr>,
           (sample_node ''n2'' [(''b'', mat_grey_named), (''c'', mat_glass)] [] (Some 0))
              \<lparr>mat_hash_map := [(''b'', ''3426''), (''c'', ''1261'')]\<rparr>],
          \<lparr>D_materials = [''3426'', ''1261''], D_objects = [], events = []\<rparr>)"
  by (simp add: import_data3d_materials_def two_nodes_def sample_node_def hash_mat_grey
      hash_mat_grey_named hash_mat_glass str_int_3426 str_int_1261 empty_blender_def
      Material_init_def materials_new_def)

text \<open>
  C3. When \<open>import_data3d_materials\<close> returns for a node list (each node's material map a
  dict, its keys distinct): every raw material was hashed; the returned table has
  distinct keys, which are exactly the string forms of the hashes met, so one entry per
  distinct hash; the record stored under a hash is the reduced record of the first raw
  material, in the order of the nodes and of each node's map, that has this hash; the
  nodes keep their materials; and each node's \<open>mat_hash_map\<close> maps every local key, in
  order, to the string form of the hash of its material.
\<close>

theorem first_seen_wins:
  assumes run: "import_data3d_materials H D objs md B = Inr (bl_materials, objs', B')"
    and dicts: "\<forall>d\<in>set objs. distinct (map fst (materials d))"
  shows "(\<forall>raw\<in>set (raw_materials_in_order objs).
            get_al_material_hash H D md raw = Inr (hashed H D md raw)) \<and>
         distinct (map fst bl_materials) \<and>
         fst ` set bl_materials =
           (\<lambda>raw. str_int (fst (hashed H D md raw))) ` set (raw_materials_in_order objs) \<and>
         (\<forall>h. map_option mat_al_material (map_of bl_materials (str_int h)) =
              map_of (map (hashed H D md) (raw_materials_in_order objs)) h) \<and>
         length objs' = length objs \<and>
         (\<forall>i<length objs.
            materials (objs' ! i) = materials (objs ! i) \<and>
            mat_hash_map (objs' ! i) = hash_map_of H D md (materials (objs ! i)))"
proof -
  let ?hs = "map (hashed H D md) (raw_materials_in_order objs)"
  let ?tbl = "first_seen [] ?hs"
  have 0: "\<forall>raw\<in>set (raw_materials_in_order objs).
      get_al_material_hash H D md raw = Inr (hashed H D md raw)"
    using run by (auto simp: import_data3d_materials_Inr_iff hashed_def)
  have t: "table_of bl_materials = map (\<lambda>(h, r). (str_int h, r)) ?tbl"
    by (rule table_of_import [OF run])
  have keys: "map fst bl_materials = map (\<lambda>p. str_int (fst p)) ?tbl"
  proof -
    have "map fst bl_materials = map fst (table_of bl_materials)"
      by (simp add: table_of_def case_prod_unfold comp_def)
    then show ?thesis by (simp add: t case_prod_unfold comp_def)
  qed
  have d: "distinct (map fst ?tbl)" by (simp add: distinct_first_seen)
  have 1: "distinct (map fst bl_materials)"
  proof -
    have "inj_on str_int (set (map fst ?tbl))"
      by (auto simp: inj_on_def dest: str_int_inj)
    then have "distinct (map str_int (map fst ?tbl))"
      using d by (simp only: distinct_map)
    then show ?thesis by (simp add: keys comp_def)
  qed
  have 2: "fst ` set bl_materials =
      (\<lambda>raw. str_int (fst (hashed H D md raw))) ` set (raw_materials_in_order objs)"
  proof -
    have "fst ` set bl_materials = set (map fst bl_materials)" by simp
    also have "\<dots> = str_int ` fst ` set ?tbl" by (simp add: keys image_image)
    also have "\<dots> = str_int ` fst ` set ?hs" by (simp add: keys_first_seen)
    finally show ?thesis by (simp add: image_image)
  qed
  have 3: "map_option mat_al_material (map_of bl_materials (str_int h)) = map_of ?hs h" for h
  proof -
    have "map_of (table_of bl_materials) = map_option mat_al_material \<circ> map_of bl_materials"
      unfolding table_of_def by (rule map_of_map)
    then have "map_option mat_al_material (map_of bl_materials (str_int h)) =
        map_of (table_of bl_materials) (str_int h)" by simp
    also have "\<dots> = map_of ?tbl h" by (simp add: t map_of_str_int_keys)
    also have "\<dots> = map_of ?hs h" by (simp add: map_of_first_seen)
    finally show ?thesis .
  qed
  have o: "objs' = map (stamp H D md) objs"
    using run by (simp add: import_data3d_materials_Inr_iff)
  have 4: "materials (objs' ! i) = materials (objs ! i) \<and>
      mat_hash_map (objs' ! i) = hash_map_of H D md (materials (objs ! i))" if "i < length objs" for i
  proof -
    have "distinct (map fst (materials (objs ! i)))" using dicts that by simp
    then show ?thesis using that by (simp add: o stamp_distinct) (simp add: stamp_def)
  qed
  show ?thesis using 0 1 2 3 4 o by simp
qed

theorem first_seen_wins_witness:
  "\<exists>bl_materials objs' B'.
     import_data3d_materials sample_hasher d3d_keys two_nodes False empty_blender =
       Inr (bl_materials, objs', B') \<and>
     map fst bl_materials = [''3426'', ''1261''] \<and>
     distinct (map fst bl_materials) \<and>
     length objs' = length two_nodes \<and>
     map_option mat_al_material (map_of bl_materials (str_int 3426)) =
       Some [(''colorDiffuse'', PyTuple [PyFloat 0.5, PyFloat 0.5, PyFloat 0.5])] \<and>
     mat_hash_map (objs' ! 0) = [(''a'', ''3426'')] \<and>
     mat_hash_map (objs' ! 1) = [(''b'', ''3426''), (''c'', ''1261'')]"
proof -
  have dicts: "\<forall>d\<in>set two_nodes. distinct (map fst (materials d))"
    by (simp add: two_nodes_def sample_node_def)
  have "\<exists>bl_materials objs' B'.
     import_data3d_materials sample_hasher d3d_keys two_nodes False empty_blender =
       Inr (bl_materials, objs', B') \<and>
     map fst bl_materials = [''3426'', ''1261''] \<and>
     map_option mat_al_material (map_of bl_materials (str_int 3426)) =
       Some [(''colorDiffuse'', PyTuple [PyFloat 0.5, PyFloat 0.5, PyFloat 0.5])] \<and>
     mat_hash_map (objs' ! 0) = [(''a'', ''3426'')] \<and>
     mat_hash_map (objs' ! 1) = [(''b'', ''3426''), (''c'', ''1261'')]"
    by (simp add: import_two_nodes str_int_3426)
  then obtain blm objs' B' where
    c: "import_data3d_materials sample_hasher d3d_keys two_nodes False empty_blender =
       Inr (blm, objs', B') \<and>
     map fst blm = [''3426'', ''1261''] \<and>
     map_option mat_al_material (map_of blm (str_int 3426)) =
       Some [(''colorDiffuse'', PyTuple [PyFloat 0.5, PyFloat 0.5, PyFloat 0.5])] \<and>
     mat_hash_map (objs' ! 0) = [(''a'', ''3426'')] \<and>
     mat_hash_map (objs' ! 1) = [(''b'', ''3426''), (''c'', ''1261'')]"
    by (elim exE)
  note facts = first_seen_wins [OF conjunct1 [OF c] dicts]
  have d: "distinct (map fst blm)" "length objs' = length two_nodes"
    using facts by blast+
  show ?thesis
    using c d by (intro exI [of _ blm] exI [of _ objs'] exI [of _ B']) (simp only: simp_thms)
qed

text \<open>
  C5. Running \<open>import_data3d_materials\<close> a second time, in the same mode, on the node
  list the first run left behind returns again, leaves every node (with its
  \<open>mat_hash_map\<close>) as it was, and builds a table with the same keys and the same reduced
  records as the first run's.
\<close>

theorem deduplication_idempotent:
  assumes run: "import_data3d_materials H D objs md B = Inr (bl_materials, objs', B')"
  shows "\<exists>bl_materials2 B''.
           import_data3d_materials H D objs' md B' = Inr (bl_materials2, objs', B'') \<and>
           table_of bl_materials2 = table_of bl_materials"
proof -
  have ok: "\<forall>raw\<in>set (raw_materials_in_order objs). \<exists>p. get_al_material_hash H D md raw = Inr p"
    and o: "objs' = map (stamp H D md) objs"
    using run by (simp_all add: import_data3d_materials_Inr_iff)
  have raws: "raw_materials_in_order objs' = raw_materials_in_order objs"
    by (simp add: o raw_materials_in_order_def stamp_def comp_def)
  have again: "map (stamp H D md) objs' = objs'"
    by (simp add: o stamp_def)
  obtain blm2 B2 where c: "(blm2, B2) = create_materials md
        (first_seen [] (map (hashed H D md) (raw_materials_in_order objs'))) [] B'"
    by (metis surj_pair)
  have run2: "import_data3d_materials H D objs' md B' = Inr (blm2, objs', B2)"
    using ok c by (simp add: import_data3d_materials_Inr_iff raws again)
  have "table_of blm2 = table_of bl_materials"
    using table_of_import [OF run2] table_of_import [OF run] by (simp add: raws)
  then show ?thesis using run2 by blast
qed

theorem deduplication_idempotent_witness:
  "\<exists>bl_materials objs' B' bl_materials2 B''.
     import_data3d_materials sample_hasher d3d_keys two_nodes False empty_blender =
       Inr (bl_materials, objs', B') \<and>
     import_data3d_materials sample_hasher d3d_keys objs' False B' =
       Inr (bl_materials2, objs', B'') \<and>
     table_of bl_materials2 = table_of bl_materials"
  using deduplication_idempotent [OF import_two_nodes] import_two_nodes by blast

section \<open>Properties of the host operations and of the scene builder's loops\<close>

lemma same_transforms_length:
  "same_transforms B B' \<Longrightarrow> length (D_objects B') = length (D_objects B)"
  unfolding same_transforms_def by (metis length_map)

lemma same_transforms_refl [simp]: "same_transforms B B"
  by (simp add: same_transforms_def)

lemma same_transforms_trans:
  "same_transforms B B1 \<Longrightarrow> same_transforms B1 B2 \<Longrightarrow> same_transforms B B2"
  by (simp add: same_transforms_def)

lemma keeps_refl [simp]: "keeps B B"
  by (simp add: keeps_def)

lemma keeps_trans: "keeps B B1 \<Longrightarrow> keeps B1 B2 \<Longrightarrow> keeps B B2"
  by (auto simp: keeps_def intro: same_transforms_trans)

lemma keeps_length: "keeps B B' \<Longrightarrow> length (D_objects B') = length (D_objects B)"
  by (simp add: keeps_def same_transforms_length)

lemma grows_refl [simp]: "grows B B"
  unfolding grows_def by (auto intro: exI [of _ 0])

lemma keeps_grows: "keeps B B' \<Longrightarrow> grows B B'"
  unfolding keeps_def same_transforms_def grows_def by (auto intro: exI [of _ 0])

lemma grows_trans: "grows B B1 \<Longrightarrow> grows B1 B2 \<Longrightarrow> grows B B2"
proof -
  assume a: "grows B B1" and b: "grows B1 B2"
  from a obtain k where k: "map ob_applied (D_objects B1) = map ob_applied (D_objects B) @ replicate k []"
    "map ob_matrix_world (D_objects B1) = map ob_matrix_world (D_objects B) @ replicate k None"
    "events B1 = events B" unfolding grows_def by blast
  from b obtain j where j: "map ob_applied (D_objects B2) = map ob_applied (D_objects B1) @ replicate j []"
    "map ob_matrix_world (D_objects B2) = map ob_matrix_world (D_objects B1) @ replicate j None"
    "events B2 = events B1" unfolding grows_def by blast
  show ?thesis
    unfolding grows_def using k j
    by (auto intro!: exI [of _ "k + j"] simp: replicate_add)
qed

lemma grows_length: "grows B B' \<Longrightarrow> length (D_objects B) \<le> length (D_objects B')"
proof -
  assume "grows B B'"
  then obtain k where "map ob_applied (D_objects B') = map ob_applied (D_objects B) @ replicate k []"
    unfolding grows_def by blast
  then have "length (map ob_applied (D_objects B')) = length (map ob_applied (D_objects B) @ replicate k [])"
    by simp
  then show ?thesis by simp
qed

lemma grows_old:
  assumes "grows B B'" and "i < length (D_objects B)"
  shows "ob_applied (D_objects B' ! i) = ob_applied (D_objects B ! i)"
    and "ob_matrix_world (D_objects B' ! i) = ob_matrix_world (D_objects B ! i)"
proof -
  from assms(1) obtain k where k:
    "map ob_applied (D_objects B') = map ob_applied (D_objects B) @ replicate k []"
    "map ob_matrix_world (D_objects B') = map ob_matrix_world (D_objects B) @ replicate k None"
    unfolding grows_def by blast
  have l: "i < length (D_objects B')" using grows_length [OF assms(1)] assms(2) by simp
  have "map ob_applied (D_objects B') ! i = (map ob_applied (D_objects B) @ replicate k []) ! i"
    using k by simp
  then show "ob_applied (D_objects B' ! i) = ob_applied (D_objects B ! i)"
    using assms(2) l by (simp add: nth_append)
  have "map ob_matrix_world (D_objects B') ! i = (map ob_matrix_world (D_objects B) @ replicate k None) ! i"
    using k by simp
  then show "ob_matrix_world (D_objects B' ! i) = ob_matrix_world (D_objects B ! i)"
    using assms(2) l by (simp add: nth_append)
qed

lemma grows_new:
  assumes "grows B B'" and "length (D_objects B) \<le> i" and "i < length (D_objects B')"
  shows "ob_applied (D_objects B' ! i) = []" and "ob_matrix_world (D_objects B' ! i) = None"
proof -
  from assms(1) obtain k where k:
    "map ob_applied (D_objects B') = map ob_applied (D_objects B) @ replicate k []"
    "map ob_matrix_world (D_objects B') = map ob_matrix_world (D_objects B) @ replicate k None"
    unfolding grows_def by blast
  have lk: "length (D_objects B') = length (D_objects B) + k"
    using k(1) by (metis length_append length_map length_replicate)
  have "map ob_applied (D_objects B') ! i = (map ob_applied (D_objects B) @ replicate k []) ! i"
    using k by simp
  then show "ob_applied (D_objects B' ! i) = []"
    using assms(2,3) lk by (simp add: nth_append)
  have "map ob_matrix_world (D_objects B') ! i = (map ob_matrix_world (D_objects B) @ replicate k None) ! i"
    using k by simp
  then show "ob_matrix_world (D_objects B' ! i) = None"
    using assms(2,3) lk by (simp add: nth_append)
qed

lemma map_field_update:
  assumes "f (g (xs ! i)) = f (xs ! i)"
  shows "map f (xs[i := g (xs ! i)]) = map f xs"
proof (cases "i < length xs")
  case True
  have "(map f xs)[i := f (g (xs ! i))] = (map f xs)[i := map f xs ! i]"
    using True assms by simp
  then show ?thesis by (simp add: map_update del: nth_map)
next
  case False
  then show ?thesis by (simp add: list_update_beyond)
qed

lemma map_map_same: "(\<And>x. f (g x) = f x) \<Longrightarrow> map f (map g xs) = map f xs"
  by simp

lemma keeps_upd_object_mat:
  "(\<And>b. ob_applied (f b) = ob_applied b) \<Longrightarrow> (\<And>b. ob_matrix_world (f b) = ob_matrix_world b)
   \<Longrightarrow> keeps B (upd_object i f (B\<lparr>D_materials := X\<rparr>))"
  by (simp add: keeps_def same_transforms_def upd_object_def map_field_update)

lemma keeps_upd_object:
  "(\<And>b. ob_applied (f b) = ob_applied b) \<Longrightarrow> (\<And>b. ob_matrix_world (f b) = ob_matrix_world b)
   \<Longrightarrow> keeps B (upd_object i f B)"
  by (simp add: keeps_def same_transforms_def upd_object_def map_field_update)

lemma keeps_deselect_all: "keeps B (deselect_all B)"
  by (simp add: keeps_def same_transforms_def deselect_all_def map_map_same del: map_map)

lemma keeps_parent_clear: "keeps B (parent_clear B)"
  by (simp add: keeps_def same_transforms_def parent_clear_def map_map_same del: map_map)

lemma keeps_object_join: "keeps B (object_join a B)"
proof -
  have "map ob_applied (D_objects (object_join a B)) = map ob_applied (D_objects B)"
    by (rule nth_equalityI) (auto simp: object_join_def Let_def)
  moreover have "map ob_matrix_world (D_objects (object_join a B)) = map ob_matrix_world (D_objects B)"
    by (rule nth_equalityI) (auto simp: object_join_def Let_def)
  moreover have "events (object_join a B) = events B"
    by (simp add: object_join_def Let_def)
  ultimately show ?thesis by (simp add: keeps_def same_transforms_def)
qed

lemma keeps_scene_link: "keeps B (scene_link ob B)"
  by (simp add: scene_link_def keeps_upd_object)

lemma keeps_scene_unlink_remove: "keeps B (scene_unlink_remove ob B)"
  by (simp add: scene_unlink_remove_def keeps_upd_object)

lemma keeps_materials_new: "keeps B (snd (materials_new n B))"
  by (simp add: materials_new_def keeps_def same_transforms_def)

lemma transform_apply_deselect_all: "transform_apply al (deselect_all B) = deselect_all B"
proof -
  have "map (\<lambda>b. if ob_select b \<and> \<not> ob_removed b then g b else b) (map (\<lambda>b. b\<lparr>ob_select := False\<rparr>) xs)
      = map (\<lambda>b. b\<lparr>ob_select := False\<rparr>) xs" for g and xs :: "bl_object list"
    by (induction xs) auto
  then show ?thesis by (simp add: transform_apply_def deselect_all_def)
qed

lemma grows_objects_new:
  "grows B (snd (objects_new n me B))"
  "fst (objects_new n me B) = length (D_objects B)"
  "length (D_objects (snd (objects_new n me B))) = Suc (length (D_objects B))"
  unfolding grows_def objects_new_def by (auto intro: exI [of _ 1])

lemma select_each_keeps: "select_each grp B = Inr B' \<Longrightarrow> keeps B B'"
proof (induction grp B rule: select_each.induct)
  case (1 B)
  then show ?case by simp
next
  case (2 rest B)
  then show ?case by simp
next
  case (3 ob rest B)
  have "keeps B (upd_object ob (\<lambda>b. b\<lparr>ob_select := True\<rparr>) B)"
    by (simp add: keeps_upd_object)
  then show ?case using 3 by (auto intro: keeps_trans)
qed

lemma select_keeps: "select objects discard B = Inr B' \<Longrightarrow> keeps B B'"
  unfolding select_def Let_def
  by (auto dest!: select_each_keeps intro: keeps_trans keeps_deselect_all split: if_splits)

lemma optimize_mesh_keeps: "optimize_mesh obj B = Inr B' \<Longrightarrow> keeps B B'"
  unfolding optimize_mesh_def
  by (auto dest: select_keeps split: option.splits if_splits)

lemma join_objects_Inr:
  "join_objects grp B = Inr (j, B') \<Longrightarrow>
   keeps B B' \<and> j = (if grp = [] then None else Some (hd grp))"
  unfolding join_objects_def Let_def
  by (auto dest!: select_keeps intro: keeps_trans keeps_object_join split: if_splits sum.splits)

lemma assign_material_keeps:
  "assign_material D blm d m ob B = Inr (e, B') \<Longrightarrow> keeps B B'"
  unfolding assign_material_def Let_def
  by (auto simp: materials_new_def intro!: keeps_upd_object keeps_upd_object_mat
      split: option.splits if_splits sum.splits prod.splits)

lemma import_mesh_Inr:
  assumes "import_mesh D im blm d m B = Inr (ob, e, B')"
  shows "ob = length (D_objects B) \<and> length (D_objects B') = Suc (length (D_objects B)) \<and> grows B B'"
proof -
  obtain me where me: "create_mesh m = Inr me"
    using assms by (auto simp: import_mesh_def split: sum.splits)
  let ?B1 = "snd (objects_new (m_name m) (Some me) B)"
  have ob: "ob = length (D_objects B)"
    using assms me by (auto simp: import_mesh_def objects_new_def split: sum.splits prod.splits if_splits)
  obtain B2 where B2: "(if im then assign_material D blm d m ob ?B1 else Inr (False, ?B1)) = Inr (e, B2)"
    and B3: "optimize_mesh (Some ob) (scene_link ob B2) = Inr B'"
    using assms me by (auto simp: import_mesh_def objects_new_def split: sum.splits prod.splits if_splits)
  have k12: "keeps ?B1 B2"
    using B2 by (auto dest: assign_material_keeps split: if_splits)
  have k23: "keeps B2 B'"
    using optimize_mesh_keeps [OF B3] keeps_scene_link [of B2 ob] by (blast intro: keeps_trans)
  have g: "grows B B'"
    using grows_objects_new(1) [of B "m_name m" "Some me"] k12 k23
    by (blast intro: grows_trans keeps_grows keeps_trans)
  have "length (D_objects B') = length (D_objects ?B1)"
    using k12 k23 by (simp add: keeps_length)
  then show ?thesis using ob g by (simp add: grows_objects_new)
qed

lemma import_meshes_Inr:
  assumes "import_meshes D im blm d ms bl_meshes bl_em B = Inr (bl_meshes', bl_em', B')"
    and "distinct (bl_meshes @ bl_em)"
    and "\<forall>x\<in>set (bl_meshes @ bl_em). n0 \<le> x \<and> x < length (D_objects B)"
    and "n0 \<le> length (D_objects B)"
  shows "grows B B' \<and> distinct (bl_meshes' @ bl_em') \<and>
         (\<forall>x\<in>set (bl_meshes' @ bl_em'). n0 \<le> x \<and> x < length (D_objects B'))"
  using assms
proof (induction ms arbitrary: bl_meshes bl_em B)
  case Nil
  then show ?case by simp
next
  case (Cons m ms)
  obtain ob e B1 where step: "import_mesh D im blm d m B = Inr (ob, e, B1)"
    using Cons.prems(1) by (auto split: sum.splits)
  note s = import_mesh_Inr [OF step]
  have fresh: "ob \<notin> set (bl_meshes @ bl_em)" using s Cons.prems(3) by auto
  have n1: "n0 \<le> length (D_objects B1)" using s Cons.prems(4) by simp
  have old: "\<forall>x\<in>set (bl_meshes @ bl_em). n0 \<le> x \<and> x < length (D_objects B1)"
  proof
    fix x assume "x \<in> set (bl_meshes @ bl_em)"
    then have "n0 \<le> x \<and> x < length (D_objects B)" using Cons.prems(3) by blast
    then show "n0 \<le> x \<and> x < length (D_objects B1)" using s by simp
  qed
  have new: "n0 \<le> ob \<and> ob < length (D_objects B1)"
    using s Cons.prems(4) by simp
  show ?case
  proof (cases e)
    case True
    then have rest: "import_meshes D im blm d ms bl_meshes (bl_em @ [ob]) B1 = Inr (bl_meshes', bl_em', B')"
      using Cons.prems(1) step by simp
    have p2: "distinct (bl_meshes @ bl_em @ [ob])" using Cons.prems(2) fresh by auto
    have p3: "\<forall>x\<in>set (bl_meshes @ bl_em @ [ob]). n0 \<le> x \<and> x < length (D_objects B1)"
      using old new by auto
    show ?thesis
      using Cons.IH [OF rest p2 p3 n1] s by (blast intro: grows_trans)
  next
    case False
    then have rest: "import_meshes D im blm d ms (bl_meshes @ [ob]) bl_em B1 = Inr (bl_meshes', bl_em', B')"
      using Cons.prems(1) step by simp
    have p2: "distinct ((bl_meshes @ [ob]) @ bl_em)" using Cons.prems(2) fresh by auto
    have p3: "\<forall>x\<in>set ((bl_meshes @ [ob]) @ bl_em). n0 \<le> x \<and> x < length (D_objects B1)"
      using old new by auto
    show ?thesis
      using Cons.IH [OF rest p2 p3 n1] s by (blast intro: grows_trans)
  qed
qed

lemma join_primary_Inr:
  assumes "join_primary d bl_meshes B = Inr (d', B')"
  shows "grows B B' \<and>
         d' = d\<lparr>bl_object := Some (if bl_meshes = [] then length (D_objects B) else hd bl_meshes)\<rparr> \<and>
         length (D_objects B') = (if bl_meshes = [] then Suc (length (D_objects B)) else length (D_objects B))"
proof (cases "bl_meshes = []")
  case True
  let ?B1 = "snd (objects_new (node_id d) None B)"
  have r: "d' = d\<lparr>bl_object := Some (length (D_objects B))\<rparr>" "B' = scene_link (length (D_objects B)) ?B1"
    using assms True by (auto simp: join_primary_def objects_new_def split: prod.splits)
  have "grows B B'"
    using grows_objects_new(1) [of B "node_id d" None] keeps_scene_link [of ?B1 "length (D_objects B)"] r
    by (blast intro: grows_trans keeps_grows)
  moreover have "length (D_objects B') = Suc (length (D_objects B))"
    using r keeps_length [OF keeps_scene_link [of ?B1 "length (D_objects B)"]]
    by (simp add: grows_objects_new)
  ultimately show ?thesis using True r by simp
next
  case False
  then obtain B1 where j: "join_objects bl_meshes B = Inr (Some (hd bl_meshes), B1)"
    and r: "d' = d\<lparr>bl_object := Some (hd bl_meshes)\<rparr>"
      "B' = upd_object (hd bl_meshes) (\<lambda>b. b\<lparr>ob_name := node_id d\<rparr>) B1"
    using assms by (auto simp: join_primary_def dest: join_objects_Inr split: sum.splits option.splits)
  have "keeps B1 B'" unfolding r by (rule keeps_upd_object) simp_all
  then have k: "keeps B B'"
    using join_objects_Inr [OF j] by (blast intro: keeps_trans)
  then show ?thesis using False r by (simp add: keeps_grows keeps_length)
qed

lemma join_emission_Inr:
  assumes "join_emission d bl_em B = Inr (d', B')"
  shows "keeps B B' \<and>
         d' = (if bl_em = [] then d else d\<lparr>bl_emission_object := Some (hd bl_em)\<rparr>)"
proof (cases "bl_em = []")
  case True
  then show ?thesis using assms by (simp add: join_emission_def)
next
  case False
  then obtain B1 where j: "join_objects bl_em B = Inr (Some (hd bl_em), B1)"
    and r: "d' = d\<lparr>bl_emission_object := Some (hd bl_em)\<rparr>"
      "B' = upd_object (hd bl_em)
              (\<lambda>b. b\<lparr>ob_name := node_id d @ ''_emission'', ob_shadow := False, ob_camera := False\<rparr>) B1"
    using assms by (auto simp: join_emission_def dest: join_objects_Inr split: sum.splits option.splits)
  have "keeps B1 B'" unfolding r by (rule keeps_upd_object) simp_all
  then have k: "keeps B B'"
    using join_objects_Inr [OF j] by (blast intro: keeps_trans)
  then show ?thesis using False r by simp
qed

lemma import_node_Inr:
  assumes run: "import_node D im blm d B = Inr (d', B')"
    and fresh: "bl_emission_object d = None"
  shows "grows B B' \<and> bl_object d' \<noteq> None \<and> distinct (node_obs d') \<and>
         (\<forall>x\<in>set (node_obs d'). length (D_objects B) \<le> x \<and> x < length (D_objects B')) \<and>
         parent d' = parent d \<and> children d' = children d"
proof -
  obtain ms es B1 d1 B2 d2 B3 ob where
    a: "import_meshes D im blm d (meshes d) [] [] B = Inr (ms, es, B1)"
    and b: "join_primary d ms B1 = Inr (d1, B2)"
    and c: "join_emission d1 es B2 = Inr (d2, B3)"
    and e: "bl_object d2 = Some ob" "d' = d2"
      "B' = upd_object ob (\<lambda>b. b\<lparr>ob_location := position d2, ob_rotation_euler := rotation d2\<rparr>) B3"
    using run by (auto simp: import_node_def split: sum.splits option.splits)
  have A: "grows B B1" "distinct (ms @ es)"
    "\<forall>x\<in>set (ms @ es). length (D_objects B) \<le> x \<and> x < length (D_objects B1)"
    using import_meshes_Inr [OF a, of "length (D_objects B)"] by simp_all
  note Bf = join_primary_Inr [OF b]
  note Cf = join_emission_Inr [OF c]
  have k3: "keeps B3 B'" using e by (simp add: keeps_upd_object)
  have g: "grows B B'"
    using A(1) Bf Cf k3 by (blast intro: grows_trans keeps_grows)
  have l: "length (D_objects B') = length (D_objects B2)"
    using Cf k3 by (simp add: keeps_length)
  have l1: "length (D_objects B) \<le> length (D_objects B1)" using A(1) by (rule grows_length)
  have d1: "d1 = d\<lparr>bl_object := Some (if ms = [] then length (D_objects B1) else hd ms)\<rparr>"
    using Bf by simp
  have d2: "d2 = (if es = [] then d1 else d1\<lparr>bl_emission_object := Some (hd es)\<rparr>)"
    using Cf by simp
  have f: "bl_object d2 = Some (if ms = [] then length (D_objects B1) else hd ms)"
    "bl_emission_object d2 = (if es = [] then None else Some (hd es))"
    "parent d2 = parent d" "children d2 = children d"
    by (cases "es = []"; simp add: d1 d2 fresh)+
  have obs: "node_obs d' = [if ms = [] then length (D_objects B1) else hd ms] @ (if es = [] then [] else [hd es])"
    unfolding e(2) node_obs_def f by simp
  have hm: "ms \<noteq> [] \<Longrightarrow> hd ms \<in> set ms" and he: "es \<noteq> [] \<Longrightarrow> hd es \<in> set es" by simp_all
  have ne1: "hd ms \<noteq> hd es" if "ms \<noteq> []" "es \<noteq> []"
    using A(2) hm [OF that(1)] he [OF that(2)] by auto
  have ne2: "length (D_objects B1) \<noteq> hd es" if "es \<noteq> []"
    using A(3) he [OF that] by auto
  have dist: "distinct (node_obs d')"
    using ne1 ne2 by (auto simp: obs)
  have l2: "length (D_objects B1) \<le> length (D_objects B')"
    using Bf l by (simp split: if_splits)
  have in_ms: "length (D_objects B) \<le> hd ms \<and> hd ms < length (D_objects B1)" if "ms \<noteq> []"
    using A(3) hm [OF that] by simp
  have in_es: "length (D_objects B) \<le> hd es \<and> hd es < length (D_objects B1)" if "es \<noteq> []"
    using A(3) he [OF that] by simp
  have fresh_ob: "length (D_objects B1) < length (D_objects B')" if "ms = []"
    using Bf l that by simp
  have rng: "\<forall>x\<in>set (node_obs d'). length (D_objects B) \<le> x \<and> x < length (D_objects B')"
    using in_ms in_es fresh_ob l1 l2 by (auto simp: obs)
  show ?thesis
    using g dist rng e(1,2) f by simp
qed

lemma import_nodes_Inr:
  assumes "import_nodes D im blm ds B = Inr (ds', B')"
    and "\<forall>d\<in>set ds. bl_emission_object d = None"
  shows "grows B B' \<and> (\<forall>d\<in>set ds'. bl_object d \<noteq> None) \<and>
         distinct (concat (map node_obs ds')) \<and>
         (\<forall>x\<in>set (concat (map node_obs ds')). length (D_objects B) \<le> x \<and> x < length (D_objects B')) \<and>
         map parent ds' = map parent ds \<and> map children ds' = map children ds"
  using assms
proof (induction ds arbitrary: ds' B)
  case Nil
  then show ?case by simp
next
  case (Cons d ds)
  obtain d1 B1 ds1 where
    a: "import_node D im blm d B = Inr (d1, B1)"
    and b: "import_nodes D im blm ds B1 = Inr (ds1, B')"
    and c: "ds' = d1 # ds1"
    using Cons.prems(1) by (auto split: sum.splits)
  have A: "grows B B1" "bl_object d1 \<noteq> None" "distinct (node_obs d1)"
    "\<forall>x\<in>set (node_obs d1). length (D_objects B) \<le> x \<and> x < length (D_objects B1)"
    "parent d1 = parent d" "children d1 = children d"
    using import_node_Inr [OF a] Cons.prems(2) by auto
  have I: "grows B1 B'" "\<forall>d\<in>set ds1. bl_object d \<noteq> None"
    "distinct (concat (map node_obs ds1))"
    "\<forall>x\<in>set (concat (map node_obs ds1)). length (D_objects B1) \<le> x \<and> x < length (D_objects B')"
    "map parent ds1 = map parent ds" "map children ds1 = map children ds"
    using Cons.IH [OF b] Cons.prems(2) by auto
  have l: "length (D_objects B) \<le> length (D_objects B1)" "length (D_objects B1) \<le> length (D_objects B')"
    using A(1) I(1) by (auto dest: grows_length)
  have disj: "set (node_obs d1) \<inter> set (concat (map node_obs ds1)) = {}"
    using A(4) I(4) by fastforce
  have rng: "\<forall>x\<in>set (concat (map node_obs ds')). length (D_objects B) \<le> x \<and> x < length (D_objects B')"
    using A(4) I(4) l unfolding c by fastforce
  have dist: "distinct (concat (map node_obs ds'))"
    using A(3) I(3) disj unfolding c by simp
  show ?case
    using A I dist rng c by (auto intro: grows_trans)
qed

lemma create_materials_keeps: "keeps B (snd (create_materials md tbl acc B))"
proof (induction tbl arbitrary: acc B)
  case Nil
  then show ?case by simp
next
  case (Cons p tbl)
  obtain h r where p: "p = (h, r)" by (cases p)
  have "keeps B (B\<lparr>D_materials := D_materials B @ [str_int h]\<rparr>)"
    by (simp add: keeps_def same_transforms_def)
  then show ?case
    using Cons.IH by (auto simp: p Material_init_def materials_new_def intro: keeps_trans)
qed

lemma import_data3d_materials_keeps:
  assumes "import_data3d_materials H D objs md B = Inr (blm, objs', B')"
  shows "keeps B B' \<and> map parent objs' = map parent objs \<and>
         map children objs' = map children objs \<and>
         map bl_emission_object objs' = map bl_emission_object objs"
proof -
  have o: "objs' = map (stamp H D md) objs"
    and c: "(blm, B') = create_materials md
        (first_seen [] (map (hashed H D md) (raw_materials_in_order objs))) [] B"
    using assms by (simp_all add: import_data3d_materials_Inr_iff)
  have "B' = snd (create_materials md
        (first_seen [] (map (hashed H D md) (raw_materials_in_order objs))) [] B)"
    using c by (metis snd_conv)
  then have "keeps B B'" by (simp add: create_materials_keeps)
  then show ?thesis by (simp add: o stamp_def comp_def)
qed


lemma set_parent_facts:
  "same_transforms B (set_parent ob p B)" "events (set_parent ob p B) = events B @ [SetParent ob p]"
proof -
  have "keeps B (upd_object ob (\<lambda>b. b\<lparr>ob_parent := p\<rparr>) B)" by (simp add: keeps_upd_object)
  then show "same_transforms B (set_parent ob p B)"
    by (simp add: set_parent_def keeps_def same_transforms_def)
  show "events (set_parent ob p B) = events B @ [SetParent ob p]"
    by (simp add: set_parent_def)
qed

lemma make_parents_Inr:
  assumes "make_parents nodes ds roots B = Inr (roots', B')"
  shows "same_transforms B B' \<and> roots' = roots @ concat (map root_refs ds) \<and>
         (\<exists>evP. events B' = events B @ evP \<and> (\<forall>e\<in>set evP. \<exists>ob p. e = SetParent ob p))"
  using assms
proof (induction ds arbitrary: roots B)
  case Nil
  then show ?case by simp
next
  case (Cons d ds)
  show ?case
  proof (cases "parent d")
    case None
    then obtain r where rest: "make_parents nodes ds (roots @ r) B = Inr (roots', B')"
      and r: "r = root_refs d"
      using Cons.prems by (auto simp: root_refs_def split: option.splits)
    show ?thesis using Cons.IH [OF rest] r by simp
  next
    case (Some p)
    let ?pob = "if p < length nodes then bl_object (nodes ! p) else None"
    obtain ob where ob: "bl_object d = Some ob"
      using Cons.prems Some by (auto simp: Let_def split: option.splits)
    let ?B1 = "set_parent ob ?pob B"
    obtain B2 evs where rest: "make_parents nodes ds roots B2 = Inr (roots', B')"
      and B2: "same_transforms B B2" "events B2 = events B @ evs"
        "\<forall>e\<in>set evs. \<exists>ob p. e = SetParent ob p"
    proof (cases "bl_emission_object d")
      case None
      then have "make_parents nodes ds roots ?B1 = Inr (roots', B')"
        using Cons.prems Some ob by (simp add: Let_def)
      then show ?thesis using that [of ?B1 "[SetParent ob ?pob]"] set_parent_facts by simp
    next
      case em: (Some em)
      then have "make_parents nodes ds roots (set_parent em ?pob ?B1) = Inr (roots', B')"
        using Cons.prems Some ob by (simp add: Let_def)
      moreover have "same_transforms B (set_parent em ?pob ?B1)"
        using set_parent_facts(1) by (blast intro: same_transforms_trans)
      ultimately show ?thesis
        using that [of "set_parent em ?pob ?B1" "[SetParent ob ?pob, SetParent em ?pob]"]
        by (simp add: set_parent_facts)
    qed
    from Cons.IH [OF rest] obtain evP where I: "same_transforms B2 B'"
      "roots' = roots @ concat (map root_refs ds)"
      "events B' = events B2 @ evP" "\<forall>e\<in>set evP. \<exists>ob p. e = SetParent ob p"
      by blast
    have "events B' = events B @ (evs @ evP)" using I(3) B2(2) by simp
    moreover have "\<forall>e\<in>set (evs @ evP). \<exists>ob p. e = SetParent ob p" using I(4) B2(3) by auto
    moreover have "root_refs d = []" using Some by (simp add: root_refs_def)
    moreover have "same_transforms B B'" using I(1) B2(1) by (blast intro: same_transforms_trans)
    ultimately show ?thesis
      using I(2) by (intro conjI exI [of _ "evs @ evP"]) simp_all
  qed
qed

lemma root_refs_objects:
  "\<forall>d\<in>set ds. bl_object d \<noteq> None \<Longrightarrow> concat (map root_refs ds) = map Some (root_objects ds)"
  by (induction ds) (auto simp: root_refs_def root_objects_def node_obs_def split: option.splits)

lemma normalise_cond_Inr: "normalise_cond obj B = Inr c \<Longrightarrow> \<not> c \<and> obj \<noteq> None"
  by (auto simp: normalise_cond_def split: if_splits option.splits)

lemma normalise_group_Inr: "normalise_group obs grp B = Inr grp' \<Longrightarrow> grp' = grp \<and> None \<notin> set obs"
proof (induction obs arbitrary: grp)
  case Nil
  then show ?case by simp
next
  case (Cons obj obs)
  then obtain c where c: "normalise_cond obj B = Inr c"
    and rest: "normalise_group obs (if c then grp @ [obj] else grp) B = Inr grp'"
    by (auto split: sum.splits)
  from normalise_cond_Inr [OF c] Cons.IH [OF rest] show ?case by auto
qed

lemma normalise_objects_Inr:
  "normalise_objects (Collection obs) al B = Inr B' \<Longrightarrow> B' = deselect_all B \<and> None \<notin> set obs"
  by (auto simp: normalise_objects_def select_def transform_apply_deselect_all
      dest!: normalise_group_Inr split: sum.splits)

lemma set_matrix_world_Inr:
  assumes "set_matrix_world g roots B = Inr B'"
  shows "\<exists>obs. roots = map Some obs \<and> events B' = events B @ map SetMatrixWorld obs \<and>
     map ob_applied (D_objects B') = map ob_applied (D_objects B) \<and>
     length (D_objects B') = length (D_objects B) \<and>
     (\<forall>i<length (D_objects B). ob_matrix_world (D_objects B' ! i) =
        (if i \<in> set obs then Some g else ob_matrix_world (D_objects B ! i)))"
  using assms
proof (induction g roots B rule: set_matrix_world.induct)
  case (1 g B)
  then show ?case by simp
next
  case (2 g rest B)
  then show ?case by simp
next
  case (3 g ob rest B)
  let ?B1 = "(upd_object ob (\<lambda>b. b\<lparr>ob_matrix_world := Some g\<rparr>) B)\<lparr>events := events B @ [SetMatrixWorld ob]\<rparr>"
  have rest: "set_matrix_world g rest ?B1 = Inr B'" using 3(2) by simp
  from 3(1) [OF rest] obtain obs where I: "rest = map Some obs"
    "events B' = events ?B1 @ map SetMatrixWorld obs"
    "map ob_applied (D_objects B') = map ob_applied (D_objects ?B1)"
    "length (D_objects B') = length (D_objects ?B1)"
    "\<forall>i<length (D_objects ?B1). ob_matrix_world (D_objects B' ! i) =
        (if i \<in> set obs then Some g else ob_matrix_world (D_objects ?B1 ! i))"
    by blast
  have l: "length (D_objects ?B1) = length (D_objects B)" by (simp add: upd_object_def)
  have a: "map ob_applied (D_objects ?B1) = map ob_applied (D_objects B)"
    by (simp add: upd_object_def map_field_update)
  have m: "ob_matrix_world (D_objects ?B1 ! i) = (if i = ob then Some g else ob_matrix_world (D_objects B ! i))"
    if "i < length (D_objects B)" for i
    using that by (simp add: upd_object_def nth_list_update)
  have "\<forall>i<length (D_objects B). ob_matrix_world (D_objects B' ! i) =
        (if i \<in> set (ob # obs) then Some g else ob_matrix_world (D_objects B ! i))"
    using I(5) l m by auto
  moreover have "events B' = events B @ map SetMatrixWorld (ob # obs)"
    using I(2) by (simp add: upd_object_def)
  ultimately show ?case
    using I(1,3,4) l a by (intro exI [of _ "ob # obs"]) simp
qed

lemma remove_empty_leaves_keeps: "remove_empty_leaves ds B = Inr B' \<Longrightarrow> keeps B B'"
proof (induction ds arbitrary: B)
  case Nil
  then show ?case by simp
next
  case (Cons d ds)
  then show ?case
    by (auto split: option.splits if_splits intro: keeps_trans [OF keeps_scene_unlink_remove])
qed

lemma clear_parents_keeps: "clear_parents obs B = Inr B' \<Longrightarrow> keeps B B'"
proof (induction obs arbitrary: B)
  case Nil
  then show ?case by simp
next
  case (Cons obj obs)
  then obtain B1 where s: "select (Single obj) False B = Inr B1"
    and rest: "clear_parents obs (parent_clear B1) = Inr B'"
    by (auto split: sum.splits)
  show ?case
    using select_keeps [OF s] keeps_parent_clear [of B1] Cons.IH [OF rest]
    by (blast intro: keeps_trans)
qed

lemma remove_empties_keeps: "remove_empties obs B = Inr B' \<Longrightarrow> keeps B B'"
proof (induction obs B rule: remove_empties.induct)
  case (1 B)
  then show ?case by simp
next
  case (2 rest B)
  then show ?case by simp
next
  case (3 ob rest B)
  then show ?case
    by (auto split: if_splits intro: keeps_trans [OF keeps_scene_unlink_remove])
qed

lemma distinct_concat_filter:
  "distinct (concat (map f xs)) \<Longrightarrow> distinct (concat (map f (filter P xs)))"
  by (induction xs) auto

lemma distinct_concat_disjoint:
  "distinct (concat (map f xs)) \<Longrightarrow> a \<in> set xs \<Longrightarrow> b \<in> set xs \<Longrightarrow> a \<noteq> b \<Longrightarrow>
   set (f a) \<inter> set (f b) = {}"
  by (induction xs) auto

lemma root_objects_subset: "set (root_objects ds) \<subseteq> set (concat (map node_obs ds))"
  by (auto simp: root_objects_def)

lemma bind_Inr:
  "(case x of Inl e \<Rightarrow> Inl e | Inr v \<Rightarrow> f v) = Inr r \<Longrightarrow> \<exists>v. x = Inr v \<and> f v = Inr r"
  by (cases x) auto

lemma finish_hierarchy_keeps:
  assumes "finish_hierarchy keep nodes B = Inr B'"
  shows "keeps B B'"
proof (cases keep)
  case True
  then show ?thesis using assms by (simp add: finish_hierarchy_def remove_empty_leaves_keeps)
next
  case False
  then have "(case clear_parents (map bl_object nodes) B of
                 Inl e \<Rightarrow> Inl e
               | Inr B1 \<Rightarrow>
                   (case normalise_objects (Collection (map bl_object nodes)) True B1 of
                      Inl e \<Rightarrow> Inl e
                    | Inr B2 \<Rightarrow> remove_empties (map bl_object nodes) B2)) = Inr B'"
    using assms by (simp add: finish_hierarchy_def Let_def)
  then obtain B6 where c1: "clear_parents (map bl_object nodes) B = Inr B6"
    and r: "(case normalise_objects (Collection (map bl_object nodes)) True B6 of
                      Inl e \<Rightarrow> Inl e
                    | Inr B2 \<Rightarrow> remove_empties (map bl_object nodes) B2) = Inr B'"
    by (blast dest: bind_Inr)
  then obtain B7 where c2: "normalise_objects (Collection (map bl_object nodes)) True B6 = Inr B7"
    and c3: "remove_empties (map bl_object nodes) B7 = Inr B'"
    by (blast dest: bind_Inr)
  have "keeps B6 B7" using normalise_objects_Inr [OF c2] by (simp add: keeps_deselect_all)
  then show ?thesis
    using clear_parents_keeps [OF c1] remove_empties_keeps [OF c3]
    by (blast intro: keeps_trans)
qed

lemma import_scene_try_stages:
  assumes "import_scene_try H D objs kwargs B = Inr (nodes, B')"
  shows "\<exists>blm nodes1 B1 B2 roots B3 B4 B5.
     (if import_materials kwargs
      then import_data3d_materials H D objs (import_al_metadata kwargs) B
      else Inr ([], objs, B)) = Inr (blm, nodes1, B1) \<and>
     import_nodes D (import_materials kwargs) blm nodes1 B1 = Inr (nodes, B2) \<and>
     make_parents nodes nodes [] B2 = Inr (roots, B3) \<and>
     normalise_objects (Collection roots) True B3 = Inr B4 \<and>
     set_matrix_world (global_matrix kwargs) roots B4 = Inr B5 \<and>
     finish_hierarchy (import_hierarchy kwargs) nodes B5 = Inr B'"
  using assms unfolding import_scene_try_def
  by (cases "import_materials kwargs") (simp_all split: sum.splits prod.splits)

lemma import_scene_try_Inr:
  assumes run: "import_scene_try H D objs kwargs B = Inr (nodes, B')"
    and fresh: "\<forall>d\<in>set objs. bl_emission_object d = None"
  shows "\<exists>B2 evP. grows B B2 \<and> length (D_objects B') = length (D_objects B2) \<and>
    map parent nodes = map parent objs \<and> (\<forall>d\<in>set nodes. bl_object d \<noteq> None) \<and>
    distinct (concat (map node_obs nodes)) \<and>
    (\<forall>x\<in>set (concat (map node_obs nodes)). length (D_objects B) \<le> x \<and> x < length (D_objects B')) \<and>
    events B' = events B @ evP @ map SetMatrixWorld (root_objects nodes) \<and>
    (\<forall>e\<in>set evP. \<exists>ob p. e = SetParent ob p) \<and>
    map ob_applied (D_objects B') = map ob_applied (D_objects B2) \<and>
    (\<forall>i<length (D_objects B'). ob_matrix_world (D_objects B' ! i) =
       (if i \<in> set (root_objects nodes) then Some (global_matrix kwargs)
        else ob_matrix_world (D_objects B2 ! i)))"
proof -
  from import_scene_try_stages [OF run] obtain blm nodes1 B1 B2 roots B3 B4 B5 where
    p0: "(if import_materials kwargs
            then import_data3d_materials H D objs (import_al_metadata kwargs) B
            else Inr ([], objs, B)) = Inr (blm, nodes1, B1)"
    and p1: "import_nodes D (import_materials kwargs) blm nodes1 B1 = Inr (nodes, B2)"
    and p2: "make_parents nodes nodes [] B2 = Inr (roots, B3)"
    and p3: "normalise_objects (Collection roots) True B3 = Inr B4"
    and p4: "set_matrix_world (global_matrix kwargs) roots B4 = Inr B5"
    and p5: "finish_hierarchy (import_hierarchy kwargs) nodes B5 = Inr B'"
    by blast
  have k5: "keeps B5 B'" using p5 by (rule finish_hierarchy_keeps)
  have k0: "keeps B B1" "map parent nodes1 = map parent objs"
    "\<forall>d\<in>set nodes1. bl_emission_object d = None"
  proof -
    show "keeps B B1" "map parent nodes1 = map parent objs"
      using p0 by (auto dest: import_data3d_materials_keeps split: if_splits)
    have "map bl_emission_object nodes1 = map bl_emission_object objs"
      using p0 by (auto dest: import_data3d_materials_keeps split: if_splits)
    then have "set (map bl_emission_object nodes1) = set (map bl_emission_object objs)" by simp
    then show "\<forall>d\<in>set nodes1. bl_emission_object d = None"
      using fresh by (metis (no_types, lifting) image_iff list.set_map)
  qed
  note f1 = import_nodes_Inr [OF p1 k0(3)]
  note f2 = make_parents_Inr [OF p2]
  have roots: "roots = map Some (root_objects nodes)"
    using f2 root_refs_objects f1 by simp
  have B4: "B4 = deselect_all B3" using normalise_objects_Inr [OF p3] by simp
  from set_matrix_world_Inr [OF p4] obtain obs where f4: "roots = map Some obs"
    "events B5 = events B4 @ map SetMatrixWorld obs"
    "map ob_applied (D_objects B5) = map ob_applied (D_objects B4)"
    "length (D_objects B5) = length (D_objects B4)"
    "\<forall>i<length (D_objects B4). ob_matrix_world (D_objects B5 ! i) =
        (if i \<in> set obs then Some (global_matrix kwargs) else ob_matrix_world (D_objects B4 ! i))"
    by blast
  have obs: "obs = root_objects nodes"
    using f4(1) roots by (simp add: map_eq_conv inj_map_eq_map)
  from f2 obtain evP where ev: "events B3 = events B2 @ evP" "\<forall>e\<in>set evP. \<exists>ob p. e = SetParent ob p"
    by blast
  have g02: "grows B B2" using k0(1) f1 by (blast intro: grows_trans keeps_grows)
  have st24: "same_transforms B2 B4"
    using f2 keeps_deselect_all [of B3] B4 by (auto simp: keeps_def intro: same_transforms_trans)
  have l24: "length (D_objects B4) = length (D_objects B2)" using st24 by (rule same_transforms_length)
  have l: "length (D_objects B') = length (D_objects B2)"
    using keeps_length [OF k5] f4(4) l24 by simp
  have e4: "events B4 = events B3" using B4 keeps_deselect_all [of B3] by (simp add: keeps_def)
  have events: "events B' = events B @ evP @ map SetMatrixWorld (root_objects nodes)"
    using k5 f4(2) e4 ev(1) g02 obs by (simp add: keeps_def grows_def)
  have ap: "map ob_applied (D_objects B') = map ob_applied (D_objects B2)"
    using k5 f4(3) st24 by (simp add: keeps_def same_transforms_def)
  have mw: "ob_matrix_world (D_objects B' ! i) =
       (if i \<in> set (root_objects nodes) then Some (global_matrix kwargs)
        else ob_matrix_world (D_objects B2 ! i))" if "i < length (D_objects B')" for i
  proof -
    have i4: "i < length (D_objects B4)" using that l l24 by simp
    have "map ob_matrix_world (D_objects B') ! i = map ob_matrix_world (D_objects B5) ! i"
      using k5 by (simp add: keeps_def same_transforms_def)
    then have a: "ob_matrix_world (D_objects B' ! i) = ob_matrix_world (D_objects B5 ! i)"
      using that i4 f4(4) by simp
    have "map ob_matrix_world (D_objects B4) ! i = map ob_matrix_world (D_objects B2) ! i"
      using st24 by (simp add: same_transforms_def)
    then have b: "ob_matrix_world (D_objects B4 ! i) = ob_matrix_world (D_objects B2 ! i)"
      using i4 l24 by simp
    show ?thesis using a b f4(5) i4 obs by simp
  qed
  have len12: "length (D_objects B1) = length (D_objects B)" using k0(1) by (rule keeps_length)
  have rng: "\<forall>x\<in>set (concat (map node_obs nodes)). length (D_objects B) \<le> x \<and> x < length (D_objects B')"
    using f1 len12 l by simp
  have par: "map parent nodes = map parent objs" using f1 k0(2) by simp
  show ?thesis
    using g02 l par f1 rng events ev(2) ap mw
    by (intro exI [of _ B2] exI [of _ evP]) simp
qed

section \<open>The scene builder on the sample scenes\<close>

lemmas scene_defs = import_scene_def import_scene_try_def import_data3d_materials_def
  sample_node_def sample_args_def empty_blender_def import_node_def import_mesh_def
  tri_mesh_def create_mesh_def upt_conv_Cons numeral_eq_Suc objects_new_def
  assign_material_def d3d_keys_def materials_new_def
  upd_object_def scene_link_def optimize_mesh_def type_of_ob_def select_def deselect_all_def
  join_primary_def join_objects_def object_join_def join_emission_def set_parent_def
  normalise_objects_def normalise_cond_def transform_apply_def finish_hierarchy_def
  scene_unlink_remove_def parent_clear_def Let_def

lemma plain_scene_kept:
  "\<exists>nodes B'. import_scene sample_hasher d3d_keys plain_scene (sample_args True True) empty_blender
      = Inr (nodes, B') \<and>
     map bl_object nodes = [Some 0, Some 1] \<and>
     root_objects nodes = [0] \<and>
     events B' = [SetParent 1 (Some 0), SetMatrixWorld 0] \<and>
     map ob_matrix_world (D_objects B') = [Some axis_matrix, None] \<and>
     map ob_materials (D_objects B') = [[0], [0]] \<and>
     D_materials B' = [''al_default'']"
  by (simp add: scene_defs plain_scene_def root_objects_def node_obs_def)

lemma plain_scene_flattened:
  "\<exists>nodes B'. import_scene sample_hasher d3d_keys plain_scene (sample_args True False) empty_blender
      = Inr (nodes, B') \<and>
     map bl_object nodes = [Some 0, Some 1] \<and>
     map parent nodes = [None, Some 0] \<and>
     map ob_location (D_objects B') = [[1, 2, 3], [0, 0, 0]] \<and>
     map ob_matrix_world (D_objects B') = [Some axis_matrix, None] \<and>
     map ob_applied (D_objects B') = [[], []] \<and>
     map ob_parent (D_objects B') = [None, None]"
  by (simp add: scene_defs plain_scene_def)

lemma dangling_scene_fails:
  "import_scene sample_hasher d3d_keys dangling_scene (sample_args True True) empty_blender
     = Inl (Import_Scene_failed (Exception ''Material not found: ''))"
  by (simp add: scene_defs dangling_scene_def)

section \<open>Properties of the scene builder\<close>

lemma import_scene_Inr_iff:
  "import_scene H D objs kwargs B = Inr r \<longleftrightarrow> import_scene_try H D objs kwargs B = Inr r"
  by (simp add: import_scene_def split: sum.splits)

text \<open>
  C9. When \<open>import_scene\<close> returns (for decoded nodes, which have no emission object
  yet): the assignments it made to \<open>parent\<close> and \<open>matrix_world\<close> are, in order, first
  assignments to \<open>parent\<close> only and then one assignment of \<open>matrix_world\<close> for each
  root-level object (the primary and emission objects of the nodes without parent), each
  of them once; every root-level object has the caller's \<open>global_matrix\<close> as its world
  matrix; and no object of a node with a parent is among them or is given a world
  matrix.
\<close>

theorem global_matrix_on_roots_once:
  assumes run: "import_scene H D objs kwargs B = Inr (nodes, B')"
    and fresh: "\<forall>d\<in>set objs. bl_emission_object d = None"
  shows "(\<exists>evP. events B' = events B @ evP @ map SetMatrixWorld (root_objects nodes) \<and>
                (\<forall>e\<in>set evP. \<exists>ob p. e = SetParent ob p)) \<and>
         distinct (root_objects nodes) \<and>
         (\<forall>ob\<in>set (root_objects nodes).
            ob < length (D_objects B') \<and>
            ob_matrix_world (D_objects B' ! ob) = Some (global_matrix kwargs)) \<and>
         (\<forall>d\<in>set nodes. parent d \<noteq> None \<longrightarrow>
            (\<forall>ob\<in>set (node_obs d).
               ob \<notin> set (root_objects nodes) \<and> ob_matrix_world (D_objects B' ! ob) = None))"
proof -
  have tr: "import_scene_try H D objs kwargs B = Inr (nodes, B')"
    using run by (simp add: import_scene_Inr_iff)
  from import_scene_try_Inr [OF tr fresh] obtain B2 evP where
    g: "grows B B2" and l: "length (D_objects B') = length (D_objects B2)"
    and dist: "distinct (concat (map node_obs nodes))"
    and rng: "\<forall>x\<in>set (concat (map node_obs nodes)). length (D_objects B) \<le> x \<and> x < length (D_objects B')"
    and ev: "events B' = events B @ evP @ map SetMatrixWorld (root_objects nodes)"
      "\<forall>e\<in>set evP. \<exists>ob p. e = SetParent ob p"
    and mw: "\<forall>i<length (D_objects B'). ob_matrix_world (D_objects B' ! i) =
       (if i \<in> set (root_objects nodes) then Some (global_matrix kwargs)
        else ob_matrix_world (D_objects B2 ! i))"
    by blast
  have 1: "distinct (root_objects nodes)"
    unfolding root_objects_def using dist by (rule distinct_concat_filter)
  have 2: "ob < length (D_objects B') \<and>
      ob_matrix_world (D_objects B' ! ob) = Some (global_matrix kwargs)"
    if "ob \<in> set (root_objects nodes)" for ob
  proof -
    have "ob \<in> set (concat (map node_obs nodes))" using that root_objects_subset by blast
    then have "ob < length (D_objects B')" using rng by blast
    then show ?thesis using mw that by simp
  qed
  have 3: "ob \<notin> set (root_objects nodes) \<and> ob_matrix_world (D_objects B' ! ob) = None"
    if d: "d \<in> set nodes" "parent d \<noteq> None" and ob: "ob \<in> set (node_obs d)" for d ob
  proof -
    have notroot: "ob \<notin> set (root_objects nodes)"
    proof
      assume "ob \<in> set (root_objects nodes)"
      then obtain r where r: "r \<in> set nodes" "parent r = None" "ob \<in> set (node_obs r)"
        by (auto simp: root_objects_def)
      then have "r \<noteq> d" using d(2) by auto
      then have "set (node_obs r) \<inter> set (node_obs d) = {}"
        using distinct_concat_disjoint [OF dist r(1) d(1)] by simp
      then show False using r(3) ob by blast
    qed
    have "ob \<in> set (concat (map node_obs nodes))" using d(1) ob by auto
    then have b: "length (D_objects B) \<le> ob" "ob < length (D_objects B')" using rng by auto
    have "ob_matrix_world (D_objects B2 ! ob) = None"
      using grows_new(2) [OF g b(1)] b(2) l by simp
    then show ?thesis using mw b(2) notroot by simp
  qed
  show ?thesis using ev 1 2 3 by blast
qed

theorem global_matrix_on_roots_once_witness:
  "\<exists>nodes B'. import_scene sample_hasher d3d_keys plain_scene (sample_args True True) empty_blender
      = Inr (nodes, B') \<and>
     events B' = [SetParent 1 (Some 0), SetMatrixWorld 0] \<and>
     root_objects nodes = [0] \<and>
     distinct (root_objects nodes) \<and>
     map ob_matrix_world (D_objects B') = [Some axis_matrix, None]"
proof -
  from plain_scene_kept obtain nodes B' where
    c: "import_scene sample_hasher d3d_keys plain_scene (sample_args True True) empty_blender
      = Inr (nodes, B') \<and>
     map bl_object nodes = [Some 0, Some 1] \<and>
     root_objects nodes = [0] \<and>
     events B' = [SetParent 1 (Some 0), SetMatrixWorld 0] \<and>
     map ob_matrix_world (D_objects B') = [Some axis_matrix, None] \<and>
     map ob_materials (D_objects B') = [[0], [0]] \<and>
     D_materials B' = [''al_default'']"
    by (elim exE)
  have fresh: "\<forall>d\<in>set plain_scene. bl_emission_object d = None"
    by (simp add: plain_scene_def sample_node_def)
  have d: "distinct (root_objects nodes)"
    using global_matrix_on_roots_once [OF conjunct1 [OF c] fresh] by blast
  show ?thesis
    using c d by (intro exI [of _ nodes] exI [of _ B']) (simp only: simp_thms)
qed

text \<open>
  C10. When \<open>import_scene\<close> returns (for decoded nodes, which have no emission object
  yet), every node without parent has a primary object, and each of its objects has the
  caller's \<open>global_matrix\<close> as its world matrix and no transform baked into its
  geometry, whatever the node's position and rotation. The filter in
  \<open>normalise_objects\<close> admits no object: whenever it returns for a list, its working
  group is empty.
\<close>

theorem root_world_matrix_is_global:
  assumes run: "import_scene H D objs kwargs B = Inr (nodes, B')"
    and fresh: "\<forall>d\<in>set objs. bl_emission_object d = None"
  shows "(\<forall>d\<in>set nodes. parent d = None \<longrightarrow>
            bl_object d \<noteq> None \<and>
            (\<forall>ob\<in>set (node_obs d).
               ob < length (D_objects B') \<and>
               ob_matrix_world (D_objects B' ! ob) = Some (global_matrix kwargs) \<and>
               ob_applied (D_objects B' ! ob) = [])) \<and>
         (\<forall>obs grp B0. normalise_group obs [] B0 = Inr grp \<longrightarrow> grp = [])"
proof -
  have tr: "import_scene_try H D objs kwargs B = Inr (nodes, B')"
    using run by (simp add: import_scene_Inr_iff)
  from import_scene_try_Inr [OF tr fresh] obtain B2 evP where
    g: "grows B B2" and l: "length (D_objects B') = length (D_objects B2)"
    and some: "\<forall>d\<in>set nodes. bl_object d \<noteq> None"
    and rng: "\<forall>x\<in>set (concat (map node_obs nodes)). length (D_objects B) \<le> x \<and> x < length (D_objects B')"
    and ap: "map ob_applied (D_objects B') = map ob_applied (D_objects B2)"
    and mw: "\<forall>i<length (D_objects B'). ob_matrix_world (D_objects B' ! i) =
       (if i \<in> set (root_objects nodes) then Some (global_matrix kwargs)
        else ob_matrix_world (D_objects B2 ! i))"
    by blast
  have 1: "ob < length (D_objects B') \<and>
      ob_matrix_world (D_objects B' ! ob) = Some (global_matrix kwargs) \<and>
      ob_applied (D_objects B' ! ob) = []"
    if d: "d \<in> set nodes" "parent d = None" and ob: "ob \<in> set (node_obs d)" for d ob
  proof -
    have r: "ob \<in> set (root_objects nodes)" using d ob by (auto simp: root_objects_def)
    have "ob \<in> set (concat (map node_obs nodes))" using d(1) ob by auto
    then have b: "length (D_objects B) \<le> ob" "ob < length (D_objects B')" using rng by auto
    have "map ob_applied (D_objects B') ! ob = map ob_applied (D_objects B2) ! ob"
      using ap by simp
    then have "ob_applied (D_objects B' ! ob) = ob_applied (D_objects B2 ! ob)"
      using b(2) l by simp
    also have "\<dots> = []" using grows_new(1) [OF g b(1)] b(2) l by simp
    finally show ?thesis using mw b(2) r by simp
  qed
  have 2: "grp = []" if "normalise_group obs [] B0 = Inr grp" for obs grp B0
    using normalise_group_Inr [OF that] by simp
  show ?thesis using some 1 2 by blast
qed

theorem root_world_matrix_is_global_witness:
  "\<exists>nodes B'. import_scene sample_hasher d3d_keys plain_scene (sample_args True False) empty_blender
      = Inr (nodes, B') \<and>
     map bl_object nodes = [Some 0, Some 1] \<and>
     map parent nodes = [None, Some 0] \<and>
     map ob_location (D_objects B') = [[1, 2, 3], [0, 0, 0]] \<and>
     map ob_matrix_world (D_objects B') = [Some axis_matrix, None] \<and>
     map ob_applied (D_objects B') = [[], []] \<and>
     (\<exists>d. d \<in> set nodes \<and> bl_object d \<noteq> None)"
proof -
  from plain_scene_flattened obtain nodes B' where
    c: "import_scene sample_hasher d3d_keys plain_scene (sample_args True False) empty_blender
      = Inr (nodes, B') \<and>
     map bl_object nodes = [Some 0, Some 1] \<and>
     map parent nodes = [None, Some 0] \<and>
     map ob_location (D_objects B') = [[1, 2, 3], [0, 0, 0]] \<and>
     map ob_matrix_world (D_objects B') = [Some axis_matrix, None] \<and>
     map ob_applied (D_objects B') = [[], []] \<and>
     map ob_parent (D_objects B') = [None, None]"
    by (elim exE)
  have fresh: "\<forall>d\<in>set plain_scene. bl_emission_object d = None"
    by (simp add: plain_scene_def sample_node_def)
  note facts = root_world_matrix_is_global [OF conjunct1 [OF c] fresh]
  have "\<exists>d. d \<in> set nodes \<and> parent d = None"
    using c by (auto simp: map_eq_Cons_conv)
  then have d: "\<exists>d. d \<in> set nodes \<and> bl_object d \<noteq> None"
    using facts by blast
  show ?thesis
    using c d by (intro exI [of _ nodes] exI [of _ B']) (simp only: simp_thms)
qed

section \<open>Material resolution per mesh\<close>

lemma resolved_material_raises:
  assumes "material m = Some k" "k \<noteq> []" "map_of (mat_hash_map d) k = Some hk" "hk \<noteq> []"
    "map_of blm hk = Some mat"
  shows "assign_material D blm d m ob B = Inl TypeError"
  using assms
  by (simp add: assign_material_def call_get_al_mat_node_def get_al_mat_node_params_def)

lemma keys_fold_update:
  "fst ` set (fold (\<lambda>(k, raw). AList.update k (f raw)) ms acc) = fst ` set ms \<union> fst ` set acc"
proof (induction ms arbitrary: acc)
  case Nil
  then show ?case by simp
next
  case (Cons p ms)
  obtain k raw where p: "p = (k, raw)" by (cases p)
  show ?case by (simp add: p Cons.IH AList.dom_update)
qed

lemma stamp_keys: "fst ` set (mat_hash_map (stamp H D md d)) = fst ` set (materials d)"
  by (simp add: stamp_def keys_fold_update)

lemma dangling_key_raises:
  assumes "material m = Some k" "k \<noteq> []" "k \<notin> fst ` set (mat_hash_map d)"
  shows "assign_material D blm d m ob B = Inl (Exception ''Material not found: '')"
proof -
  have "map_of (mat_hash_map d) k = None" using assms(3) by (simp add: map_of_eq_None_iff)
  then show ?thesis using assms(1,2) by (simp add: assign_material_def)
qed

lemma import_mesh_dangling:
  assumes "material m = Some k" "k \<noteq> []" "k \<notin> fst ` set (mat_hash_map d)"
  shows "\<exists>e. import_mesh D True blm d m B = Inl e"
proof (cases "create_mesh m")
  case (Inl e)
  then show ?thesis by (simp add: import_mesh_def)
next
  case (Inr me)
  then show ?thesis
    by (simp add: import_mesh_def dangling_key_raises [OF assms] split: prod.splits)
qed

lemma import_meshes_dangling:
  assumes "m \<in> set ms" "material m = Some k" "k \<noteq> []" "k \<notin> fst ` set (mat_hash_map d)"
  shows "\<exists>e. import_meshes D True blm d ms a b B = Inl e"
  using assms(1)
proof (induction ms arbitrary: a b B)
  case Nil
  then show ?case by simp
next
  case (Cons x ms)
  show ?case
  proof (cases "import_mesh D True blm d x B")
    case (Inl e)
    then show ?thesis by simp
  next
    case (Inr r)
    then have "x \<noteq> m" using import_mesh_dangling [OF assms(2-4), of D blm B] by auto
    then have "m \<in> set ms" using Cons.prems by simp
    then show ?thesis using Cons.IH Inr by (auto split: prod.splits)
  qed
qed

lemma import_node_dangling:
  assumes "m \<in> set (meshes d)" "material m = Some k" "k \<noteq> []" "k \<notin> fst ` set (mat_hash_map d)"
  shows "\<exists>e. import_node D True blm d B = Inl e"
proof -
  obtain e where "import_meshes D True blm d (meshes d) [] [] B = Inl e"
    using import_meshes_dangling [OF assms] by blast
  then show ?thesis by (simp add: import_node_def)
qed

lemma import_nodes_dangling:
  assumes "d \<in> set ds" "m \<in> set (meshes d)" "material m = Some k" "k \<noteq> []"
    "k \<notin> fst ` set (mat_hash_map d)"
  shows "\<exists>e. import_nodes D True blm ds B = Inl e"
  using assms(1)
proof (induction ds arbitrary: B)
  case Nil
  then show ?case by simp
next
  case (Cons x ds)
  show ?case
  proof (cases "import_node D True blm x B")
    case (Inl e)
    then show ?thesis by simp
  next
    case (Inr r)
    then have "x \<noteq> d" using import_node_dangling [OF assms(2-5), of D blm B] by auto
    then have "d \<in> set ds" using Cons.prems by simp
    then obtain e where "import_nodes D True blm ds (snd r) = Inl e" using Cons.IH by blast
    then show ?thesis using Inr by (cases r) simp
  qed
qed

text \<open>
  C7. With materials imported, a mesh whose material key is not empty and is not a key
  of its node's material map makes \<open>import_scene\<close> fail, whatever else the scene holds:
  nothing is returned but the wrapped exception. At that mesh, for the node as the
  deduplicator left it, the material step raises \<open>Material not found\<close>.
\<close>

theorem dangling_material_key_fails:
  assumes "import_materials kwargs" and "d \<in> set objs" and "m \<in> set (meshes d)"
    and "material m = Some k" and "k \<noteq> []" and "k \<notin> fst ` set (materials d)"
  shows "(\<exists>e. import_scene H D objs kwargs B = Inl (Import_Scene_failed e)) \<and>
         (\<forall>blm ob B1. assign_material D blm (stamp H D (import_al_metadata kwargs) d) m ob B1 =
            Inl (Exception ''Material not found: ''))"
proof -
  let ?md = "import_al_metadata kwargs"
  let ?d = "stamp H D ?md d"
  have nk: "k \<notin> fst ` set (mat_hash_map ?d)" using assms(6) by (simp add: stamp_keys)
  have ms: "m \<in> set (meshes ?d)" using assms(3) by (simp add: stamp_def)
  have 2: "assign_material D blm ?d m ob B1 = Inl (Exception ''Material not found: '')" for blm ob B1
    by (rule dangling_key_raises [OF assms(4,5) nk])
  have "\<exists>e. import_scene_try H D objs kwargs B = Inl e"
  proof (cases "import_data3d_materials H D objs ?md B")
    case (Inl e)
    then show ?thesis using assms(1) by (simp add: import_scene_try_def)
  next
    case (Inr r)
    obtain blm nodes1 B1 where r: "r = (blm, nodes1, B1)" by (cases r)
    have "nodes1 = map (stamp H D ?md) objs"
      using Inr r by (simp add: import_data3d_materials_Inr_iff)
    then have "?d \<in> set nodes1" using assms(2) by simp
    then obtain e where "import_nodes D True blm nodes1 B1 = Inl e"
      using import_nodes_dangling [OF _ ms assms(4,5) nk] by blast
    then show ?thesis using assms(1) Inr r by (simp add: import_scene_try_def)
  qed
  then have 1: "\<exists>e. import_scene H D objs kwargs B = Inl (Import_Scene_failed e)"
    by (auto simp: import_scene_def)
  show ?thesis using 1 2 by blast
qed

theorem dangling_material_key_fails_witness:
  "(\<exists>e. import_scene sample_hasher d3d_keys dangling_scene (sample_args True True) empty_blender
        = Inl (Import_Scene_failed e)) \<and>
   import_scene sample_hasher d3d_keys dangling_scene (sample_args True True) empty_blender
     = Inl (Import_Scene_failed (Exception ''Material not found: ''))"
proof -
  let ?d = "sample_node ''wall'' [] [tri_mesh\<lparr>material := Some ''missing''\<rparr>] None"
  let ?m = "tri_mesh\<lparr>material := Some ''missing''\<rparr>"
  have h: "import_materials (sample_args True True)" "?d \<in> set dangling_scene"
    "?m \<in> set (meshes ?d)" "material ?m = Some ''missing''" "''missing'' \<noteq> []"
    "''missing'' \<notin> fst ` set (materials ?d)"
    by (simp_all add: sample_args_def dangling_scene_def sample_node_def)
  show ?thesis
    using dangling_material_key_fails [OF h, of sample_hasher d3d_keys empty_blender]
      dangling_scene_fails by blast
qed

lemma index_of_nth: "x \<in> set xs \<Longrightarrow> index_of x xs < length xs \<and> xs ! index_of x xs = x"
  by (induction xs) auto

lemma index_of_first: "j < index_of x xs \<Longrightarrow> xs ! j \<noteq> x"
proof (induction xs arbitrary: j)
  case Nil
  then show ?case by simp
next
  case (Cons y ys)
  then show ?case by (cases j) (auto split: if_splits)
qed

text \<open>
  C8, as amended. With materials imported, the material step of a mesh raises nothing
  when the mesh has no material key or an empty one. Without the key, the mesh's object
  is given the default material: when the host has a material of that name, the first
  one of that name is appended to the object's materials and the host's materials stay
  as they were; when it has none, a material of that name is appended to the host's
  materials and that new material is appended to the object's. With an empty key, the
  object is given no material and the host is left as it was. Nothing else changes.
\<close>

theorem default_material_for_absent_key:
  "(material m = None \<and> mat_default D \<in> set (D_materials B) \<longrightarrow>
      (\<exists>i. i < length (D_materials B) \<and> D_materials B ! i = mat_default D \<and>
           (\<forall>j<i. D_materials B ! j \<noteq> mat_default D) \<and>
           assign_material D blm d m ob B =
             Inr (False,
               B\<lparr>D_objects := (D_objects B)
                   [ob := (D_objects B ! ob)
                      \<lparr>ob_materials := ob_materials (D_objects B ! ob) @ [i]\<rparr>]\<rparr>))) \<and>
   (material m = None \<and> mat_default D \<notin> set (D_materials B) \<longrightarrow>
      assign_material D blm d m ob B =
        Inr (False,
          B\<lparr>D_materials := D_materials B @ [mat_default D],
            D_objects := (D_objects B)
              [ob := (D_objects B ! ob)
                 \<lparr>ob_materials := ob_materials (D_objects B ! ob) @ [length (D_materials B)]\<rparr>]\<rparr>)) \<and>
   (material m = Some [] \<longrightarrow> assign_material D blm d m ob B = Inr (False, B))"
proof -
  have 1: "\<exists>i. i < length (D_materials B) \<and> D_materials B ! i = mat_default D \<and>
           (\<forall>j<i. D_materials B ! j \<noteq> mat_default D) \<and>
           assign_material D blm d m ob B =
             Inr (False,
               B\<lparr>D_objects := (D_objects B)
                   [ob := (D_objects B ! ob)
                      \<lparr>ob_materials := ob_materials (D_objects B ! ob) @ [i]\<rparr>]\<rparr>)"
    if none: "material m = None" and present: "mat_default D \<in> set (D_materials B)"
  proof -
    let ?i = "index_of (mat_default D) (D_materials B)"
    have r: "assign_material D blm d m ob B =
        Inr (False, B\<lparr>D_objects := (D_objects B)
                   [ob := (D_objects B ! ob)
                      \<lparr>ob_materials := ob_materials (D_objects B ! ob) @ [?i]\<rparr>]\<rparr>)"
      using none present by (simp add: assign_material_def upd_object_def)
    have n: "?i < length (D_materials B)" "D_materials B ! ?i = mat_default D"
      using index_of_nth [OF present] by simp_all
    have f: "\<forall>j<?i. D_materials B ! j \<noteq> mat_default D"
    proof (intro allI impI)
      fix j assume "j < ?i"
      then show "D_materials B ! j \<noteq> mat_default D" by (rule index_of_first)
    qed
    show ?thesis
      by (rule exI [of _ ?i]) (intro conjI n f r)
  qed
  have 2: "assign_material D blm d m ob B =
        Inr (False,
          B\<lparr>D_materials := D_materials B @ [mat_default D],
            D_objects := (D_objects B)
              [ob := (D_objects B ! ob)
                 \<lparr>ob_materials := ob_materials (D_objects B ! ob) @ [length (D_materials B)]\<rparr>]\<rparr>)"
    if "material m = None" "mat_default D \<notin> set (D_materials B)"
    using that by (simp add: assign_material_def materials_new_def upd_object_def)
  have 3: "assign_material D blm d m ob B = Inr (False, B)" if "material m = Some []"
    using that by (simp add: assign_material_def)
  show ?thesis
  proof (intro conjI impI)
    assume "material m = None \<and> mat_default D \<in> set (D_materials B)"
    then show "\<exists>i. i < length (D_materials B) \<and> D_materials B ! i = mat_default D \<and>
           (\<forall>j<i. D_materials B ! j \<noteq> mat_default D) \<and>
           assign_material D blm d m ob B =
             Inr (False,
               B\<lparr>D_objects := (D_objects B)
                   [ob := (D_objects B ! ob)
                      \<lparr>ob_materials := ob_materials (D_objects B ! ob) @ [i]\<rparr>]\<rparr>)"
      using 1 by simp
  next
    assume "material m = None \<and> mat_default D \<notin> set (D_materials B)"
    then show "assign_material D blm d m ob B =
        Inr (False,
          B\<lparr>D_materials := D_materials B @ [mat_default D],
            D_objects := (D_objects B)
              [ob := (D_objects B ! ob)
                 \<lparr>ob_materials := ob_materials (D_objects B ! ob) @ [length (D_materials B)]\<rparr>]\<rparr>)"
      using 2 by simp
  next
    assume "material m = Some []"
    then show "assign_material D blm d m ob B = Inr (False, B)" by (rule 3)
  qed
qed

lemma tri_mesh_material: "material tri_mesh = None" "material (tri_mesh\<lparr>material := Some []\<rparr>) = Some []"
  by (simp_all add: tri_mesh_def)

lemma sample_hosts_default: "mat_default d3d_keys \<in> set (D_materials host_with_default)"
    "mat_default d3d_keys \<notin> set (D_materials host_without_default)"
  by (simp_all add: d3d_keys_def host_with_default_def host_without_default_def)

lemma default_index_in_sample_host: "i < length (D_materials host_with_default) \<Longrightarrow>
    D_materials host_with_default ! i = mat_default d3d_keys \<Longrightarrow> i = 1"
proof -
  assume a: "i < length (D_materials host_with_default)"
    and b: "D_materials host_with_default ! i = mat_default d3d_keys"
  have "i < Suc (Suc (Suc 0))" using a by (simp add: host_with_default_def)
  then have "i = 0 \<or> i = Suc 0 \<or> i = Suc (Suc 0)" by arith
  moreover have "D_materials host_with_default ! 0 \<noteq> mat_default d3d_keys"
    "D_materials host_with_default ! Suc (Suc 0) \<noteq> mat_default d3d_keys"
    by (simp_all add: host_with_default_def d3d_keys_def)
  ultimately show ?thesis using b by auto
qed

theorem default_material_for_absent_key_witness:
  "assign_material d3d_keys [] (sample_node ''wall'' [] [tri_mesh] None) tri_mesh 0
       host_with_default =
     Inr (False, host_with_default
       \<lparr>D_objects := [bare_object\<lparr>ob_materials := [1]\<rparr>]\<rparr>) \<and>
   assign_material d3d_keys [] (sample_node ''wall'' [] [tri_mesh] None) tri_mesh 0
       host_without_default =
     Inr (False, host_without_default
       \<lparr>D_materials := [''3426'', ''al_default''],
        D_objects := [bare_object\<lparr>ob_materials := [1]\<rparr>]\<rparr>) \<and>
   assign_material d3d_keys [] (sample_node ''wall'' [] [tri_mesh] None)
       (tri_mesh\<lparr>material := Some []\<rparr>) 0 host_with_default =
     Inr (False, host_with_default)"
proof -
  let ?d = "sample_node ''wall'' [] [tri_mesh] None"
  note t1 = default_material_for_absent_key [of tri_mesh d3d_keys host_with_default "[]" ?d 0]
  note t2 = default_material_for_absent_key [of tri_mesh d3d_keys host_without_default "[]" ?d 0]
  note t3 = default_material_for_absent_key [of "tri_mesh\<lparr>material := Some []\<rparr>" d3d_keys host_with_default "[]" ?d 0]
  note e = t1 [THEN conjunct1, THEN mp, OF conjI [OF tri_mesh_material(1) sample_hosts_default(1)]]
  from e obtain i where i: "i < length (D_materials host_with_default) \<and>
     D_materials host_with_default ! i = mat_default d3d_keys \<and>
     (\<forall>j<i. D_materials host_with_default ! j \<noteq> mat_default d3d_keys) \<and>
     assign_material d3d_keys [] ?d tri_mesh 0 host_with_default =
       Inr (False, host_with_default\<lparr>D_objects := (D_objects host_with_default)
           [0 := (D_objects host_with_default ! 0)
              \<lparr>ob_materials := ob_materials (D_objects host_with_default ! 0) @ [i]\<rparr>]\<rparr>)"
    by (elim exE)
  have i1: "i = 1" using default_index_in_sample_host [OF conjunct1 [OF i] conjunct1 [OF conjunct2 [OF i]]] .
  have a: "assign_material d3d_keys [] ?d tri_mesh 0 host_with_default =
     Inr (False, host_with_default\<lparr>D_objects := [bare_object\<lparr>ob_materials := [1]\<rparr>]\<rparr>)"
    using conjunct2 [OF conjunct2 [OF conjunct2 [OF i]]] unfolding i1
    by (simp add: host_with_default_def bare_object_def)
  have b: "assign_material d3d_keys [] ?d tri_mesh 0 host_without_default =
     Inr (False, host_without_default
       \<lparr>D_materials := [''3426'', ''al_default''],
        D_objects := [bare_object\<lparr>ob_materials := [1]\<rparr>]\<rparr>)"
    using t2 [THEN conjunct2, THEN conjunct1, THEN mp, OF conjI [OF tri_mesh_material(1) sample_hosts_default(2)]]
    by (simp add: host_without_default_def bare_object_def d3d_keys_def)
  have c: "assign_material d3d_keys [] ?d (tri_mesh\<lparr>material := Some []\<rparr>) 0 host_with_default =
     Inr (False, host_with_default)"
    using t3 [THEN conjunct2, THEN conjunct2, THEN mp, OF tri_mesh_material(2)] .
  show ?thesis using a b c by (simp only: simp_thms)
qed

text \<open>
  The claim C8 as stated fails for the empty key: the importer returns, and the mesh's
  object has no material; the default material is not even created.
\<close>

theorem no_default_material_for_empty_key:
  "\<exists>nodes B'. import_scene sample_hasher d3d_keys empty_key_scene (sample_args True True) empty_blender
      = Inr (nodes, B') \<and>
     map bl_object nodes = [Some 0] \<and>
     map ob_materials (D_objects B') = [[]] \<and>
     D_materials B' = []"
  by (simp add: scene_defs empty_key_scene_def)

text \<open>
  C2 fails on the code. A node whose only mesh resolves to a material with emission
  coefficient \<open>2.0\<close> gets no emission object: the importer calls
  \<open>get_al_mat_node(D3D.coef_emit, fallback=0.0)\<close>, the method takes no \<open>fallback\<close>, and
  the import ends with the wrapped TypeError.
\<close>

theorem emissive_node_import_fails:
  "import_scene sample_hasher d3d_keys glow_scene (sample_args True True) empty_blender
     = Inl (Import_Scene_failed TypeError)"
  by (simp add: scene_defs glow_scene_def get_al_material_hash_def compare_keys_def
      hash_items_def sample_hasher_def Material_init_def call_get_al_mat_node_def
      get_al_mat_node_params_def str_int_nonempty)

end
